theory Spec2Isabelle
  imports Complex_Main "HOL-Library.AList"
begin

section \<open>Baum-Welch for a discrete hidden Markov model\<close>

text \<open>
  The development follows the notebook \<^verbatim>\<open>Notebooks/HMM Baum-Welch PyTorch .ipynb\<close>.
  Tensors of rank one are lists of numbers, tensors of rank two are lists of rows.
  The notebook computes in 64-bit floating point; here the entries are real numbers,
  so every statement below is about the exact arithmetic that the floating-point
  operations approximate. Division of tensors (\<^verbatim>\<open>torch.div\<close>) never raises; where the
  divisor is zero the notebook yields \<^verbatim>\<open>inf\<close> or \<^verbatim>\<open>nan\<close> while \<open>x / 0 = 0\<close> on the reals,
  and the theorems that depend on a quotient assume the divisor to be non-zero.
  State and symbol indices are natural numbers (negative indices, which Python would
  count from the end, are not part of the index type).
\<close>

subsection \<open>Exceptions\<close>

datatype error = IndexError | RuntimeError | ZeroDivisionError

definition bind_err :: "error + 'a \<Rightarrow> ('a \<Rightarrow> error + 'b) \<Rightarrow> error + 'b" where
  "bind_err m f = (case m of Inl e \<Rightarrow> Inl e | Inr x \<Rightarrow> f x)"

fun map_err :: "('a \<Rightarrow> error + 'b) \<Rightarrow> 'a list \<Rightarrow> error + 'b list" where
  "map_err f [] = Inr []"
| "map_err f (x # xs) =
     bind_err (f x) (\<lambda>y. bind_err (map_err f xs) (\<lambda>ys. Inr (y # ys)))"

fun fold_err :: "('a \<Rightarrow> 's \<Rightarrow> error + 's) \<Rightarrow> 'a list \<Rightarrow> 's \<Rightarrow> error + 's" where
  "fold_err f [] s = Inr s"
| "fold_err f (x # xs) s = bind_err (f x s) (fold_err f xs)"

subsection \<open>Vectors and matrices\<close>

type_synonym vec = "real list"
type_synonym mat = "real list list"

definition is_mat :: "nat \<Rightarrow> nat \<Rightarrow> mat \<Rightarrow> bool" where
  "is_mat n m M = (length M = n \<and> list_all (\<lambda>r. length r = m) M)"

text \<open>\<^verbatim>\<open>torch.zeros(size = [n, m])\<close>\<close>

definition zeros :: "nat \<Rightarrow> nat \<Rightarrow> mat" where
  "zeros n m = replicate n (replicate m 0)"

text \<open>The number of columns; a matrix without rows is taken to have none.\<close>

definition ncols :: "mat \<Rightarrow> nat" where
  "ncols M = (case M of [] \<Rightarrow> 0 | r # _ \<Rightarrow> length r)"

text \<open>\<^verbatim>\<open>M[i][j] = v\<close> with non-negative \<open>i\<close> and \<open>j\<close>: each index is checked against its
  dimension.\<close>

definition set_item :: "mat \<Rightarrow> nat \<Rightarrow> nat \<Rightarrow> real \<Rightarrow> error + mat" where
  "set_item M i j v =
     (if i < length M
      then (if j < length (M ! i) then Inr (M[i := (M ! i)[j := v]]) else Inl IndexError)
      else Inl IndexError)"

subsection \<open>Python containers\<close>

text \<open>
  \<^verbatim>\<open>collections.Counter(xs)\<close>: a dictionary from each distinct element to its number of
  occurrences, in the order of first occurrence. Dictionaries are association lists;
  \<open>AList.update\<close> overwrites the value of a key that is present and appends a new key,
  as insertion into a Python dictionary does.
\<close>

definition count_step :: "'a \<Rightarrow> ('a \<times> nat) list \<Rightarrow> ('a \<times> nat) list" where
  "count_step x c = AList.update x (case map_of c x of None \<Rightarrow> 1 | Some n \<Rightarrow> n + 1) c"

definition Counter :: "'a list \<Rightarrow> ('a \<times> nat) list" where
  "Counter xs = fold count_step xs []"

text \<open>\<^verbatim>\<open>c[k]\<close> on a Counter: a missing key counts zero.\<close>

definition counter_get :: "('a \<times> nat) list \<Rightarrow> 'a \<Rightarrow> nat" where
  "counter_get c k = (case map_of c k of None \<Rightarrow> 0 | Some n \<Rightarrow> n)"

text \<open>\<^verbatim>\<open>a / b\<close> on Python integers: true division, raising on a zero divisor.\<close>

definition py_div :: "nat \<Rightarrow> nat \<Rightarrow> error + real" where
  "py_div a b = (if b = 0 then Inl ZeroDivisionError else Inr (real a / real b))"

text \<open>\<^verbatim>\<open>t[i]\<close> on a tuple, which is modelled as a list.\<close>

definition tuple_get :: "'a list \<Rightarrow> nat \<Rightarrow> error + 'a" where
  "tuple_get t i = (if i < length t then Inr (t ! i) else Inl IndexError)"

subsection \<open>Estimating initial parameters\<close>

text \<open>
  \<^verbatim>\<open>hidden_state_init\<close>. The comprehension runs over \<^verbatim>\<open>Counter(sequence).values()\<close>, so the
  dictionary \<^verbatim>\<open>probabilities\<close> is keyed by the occurrence counts; \<^verbatim>\<open>sorted\<close> orders its
  items by key, and the second components are returned.
\<close>

definition hidden_state_init :: "nat list \<Rightarrow> error + vec" where
  "hidden_state_init sequence =
     bind_err
       (fold_err
          (\<lambda>state d. bind_err (py_div state (length sequence))
                        (\<lambda>p. Inr (AList.update state p d)))
          (map snd (Counter sequence)) [])
       (\<lambda>probabilities. Inr (map snd (sort_key fst probabilities)))"

text \<open>
  \<^verbatim>\<open>trans_mat_init\<close>. The first loop collects, for every position but the first, the
  tuple of the previous and the current value, each wrapped in a one-element list.
\<close>

definition trans_step :: "nat \<times> nat \<Rightarrow> nat list \<times> nat list list list \<Rightarrow> nat list \<times> nat list list list" where
  "trans_step iv st =
     (case iv of (i, val) \<Rightarrow> case st of (temp, sequences) \<Rightarrow>
        let temp = temp @ [val] in
        if i \<noteq> 0 then ([val], sequences @ [[temp]]) else (temp, sequences))"

definition trans_write :: "nat list \<times> real \<Rightarrow> mat \<Rightarrow> error + mat" where
  "trans_write kv transition_mat =
     (case kv of (key, val) \<Rightarrow>
        bind_err (tuple_get key 0) (\<lambda>k0.
        bind_err (tuple_get key 1) (\<lambda>k1.
        set_item transition_mat k0 k1 val)))"

definition trans_mat_init :: "nat list \<Rightarrow> error + mat" where
  "trans_mat_init sequence =
     (let sequence_counts = Counter sequence;
          seq_set_length = card (set sequence);
          transition_mat = zeros seq_set_length seq_set_length;
          sequences = snd (fold trans_step (enumerate 0 sequence) ([], []));
          transition_sequences = Counter (concat sequences)
      in bind_err
           (map_err (\<lambda>(key, val).
                bind_err (tuple_get key 0) (\<lambda>k0.
                bind_err (py_div val (counter_get sequence_counts k0)) (\<lambda>q.
                Inr (key, q))))
              transition_sequences)
           (\<lambda>transition_mat_dict. fold_err trans_write transition_mat_dict transition_mat))"

text \<open>\<^verbatim>\<open>emiss_state_init\<close>. \<^verbatim>\<open>zip\<close> stops at the end of the shorter sequence.\<close>

definition emiss_write :: "(nat \<times> nat) \<times> real \<Rightarrow> mat \<Rightarrow> error + mat" where
  "emiss_write kv emiss_mat = (case kv of ((k0, k1), val) \<Rightarrow> set_item emiss_mat k0 k1 val)"

definition emiss_state_init :: "nat list \<Rightarrow> nat list \<Rightarrow> error + mat" where
  "emiss_state_init hid_seq obs_seq =
     (let sequence_counts = Counter hid_seq;
          hid_emi_seq = map (\<lambda>x. [x]) (zip hid_seq obs_seq);
          hid_emi_seq_counts = Counter (concat hid_emi_seq);
          emiss_mat = zeros (card (set hid_seq)) (card (set obs_seq))
      in bind_err
           (map_err (\<lambda>(key, val).
                bind_err (py_div (counter_get hid_emi_seq_counts key)
                                 (counter_get sequence_counts (fst key))) (\<lambda>q.
                Inr (key, q)))
              hid_emi_seq_counts)
           (\<lambda>emiss_mat_dict. fold_err emiss_write emiss_mat_dict emiss_mat))"

subsection \<open>Tensor operations\<close>

text \<open>\<^verbatim>\<open>xs[i]\<close> on a sequence, \<open>i\<close> non-negative.\<close>

definition seq_get :: "'a list \<Rightarrow> nat \<Rightarrow> error + 'a" where
  "seq_get xs i = (if i < length xs then Inr (xs ! i) else Inl IndexError)"

text \<open>\<^verbatim>\<open>M[:, j]\<close> and \<^verbatim>\<open>M[:, -k]\<close> (the \<open>k\<close>-th column from the right, \<open>k \<ge> 1\<close>).\<close>

definition col :: "mat \<Rightarrow> nat \<Rightarrow> error + vec" where
  "col M j = (if j < ncols M then Inr (map (\<lambda>r. r ! j) M) else Inl IndexError)"

definition col_neg :: "mat \<Rightarrow> nat \<Rightarrow> error + vec" where
  "col_neg M k = (if k \<le> ncols M then col M (ncols M - k) else Inl IndexError)"

text \<open>
  \<^verbatim>\<open>M[:, j] = v\<close> and \<^verbatim>\<open>M[:, -k] = v\<close>: the column must exist, and \<open>v\<close> must have one
  entry per row or a single entry, which is then copied to every row; any other
  length is a shape mismatch.
\<close>

definition set_col :: "mat \<Rightarrow> nat \<Rightarrow> vec \<Rightarrow> error + mat" where
  "set_col M j v =
     (if j < ncols M
      then (if length v = length M then Inr (map2 (\<lambda>r x. r[j := x]) M v)
            else if length v = 1 then Inr (map (\<lambda>r. r[j := hd v]) M)
            else Inl RuntimeError)
      else Inl IndexError)"

definition set_col_neg :: "mat \<Rightarrow> nat \<Rightarrow> vec \<Rightarrow> error + mat" where
  "set_col_neg M k v = (if k \<le> ncols M then set_col M (ncols M - k) v else Inl IndexError)"

text \<open>
  Elementwise binary operations broadcast: along a dimension the two sizes must be
  equal, or one of them is 1 and its single entry is used throughout. A vector
  combined with a matrix counts as a matrix of one row.
\<close>

definition broadcast :: "('a \<Rightarrow> 'b \<Rightarrow> error + 'c) \<Rightarrow> 'a list \<Rightarrow> 'b list \<Rightarrow> error + 'c list" where
  "broadcast f xs ys =
     (if length xs = length ys then map_err (\<lambda>(x, y). f x y) (zip xs ys)
      else if length xs = 1 then map_err (f (hd xs)) ys
      else if length ys = 1 then map_err (\<lambda>x. f x (hd ys)) xs
      else Inl RuntimeError)"

definition vmul :: "vec \<Rightarrow> vec \<Rightarrow> error + vec" where
  "vmul = broadcast (\<lambda>x y. Inr (x * y))"

definition vdiv :: "vec \<Rightarrow> vec \<Rightarrow> error + vec" where
  "vdiv = broadcast (\<lambda>x y. Inr (x / y))"

definition mat_mul :: "mat \<Rightarrow> mat \<Rightarrow> error + mat" where
  "mat_mul = broadcast vmul"

definition mat_div :: "mat \<Rightarrow> mat \<Rightarrow> error + mat" where
  "mat_div = broadcast vdiv"

text \<open>Division of a tensor by a number (a tensor of rank zero).\<close>

definition vscale_div :: "vec \<Rightarrow> real \<Rightarrow> vec" where
  "vscale_div v s = map (\<lambda>x. x / s) v"

text \<open>\<^verbatim>\<open>torch.sum(M, dim = 0)\<close>, \<^verbatim>\<open>torch.sum(M, dim = 1)\<close> and \<^verbatim>\<open>torch.transpose(M, 1, 0)\<close>.\<close>

definition col_sums :: "mat \<Rightarrow> vec" where
  "col_sums M = map (\<lambda>j. sum_list (map (\<lambda>r. r ! j) M)) [0..<ncols M]"

definition row_sums :: "mat \<Rightarrow> vec" where
  "row_sums M = map sum_list M"

definition transpose_mat :: "mat \<Rightarrow> mat" where
  "transpose_mat M = map (\<lambda>j. map (\<lambda>r. r ! j) M) [0..<ncols M]"

text \<open>\<^verbatim>\<open>torch.matmul\<close> of a vector with a matrix and of a matrix with a vector; the
  contracted dimensions must agree.\<close>

definition vec_mat :: "vec \<Rightarrow> mat \<Rightarrow> error + vec" where
  "vec_mat v M =
     (if length v = length M
      then Inr (map (\<lambda>k. sum_list (map2 (\<lambda>x r. x * r ! k) v M)) [0..<ncols M])
      else Inl RuntimeError)"

definition mat_vec :: "mat \<Rightarrow> vec \<Rightarrow> error + vec" where
  "mat_vec M v =
     (if ncols M = length v then Inr (map (\<lambda>r. sum_list (map2 (*) r v)) M)
      else Inl RuntimeError)"

text \<open>\<^verbatim>\<open>M[:, :-1]\<close>: all columns but the last.\<close>

definition drop_last_col :: "mat \<Rightarrow> mat" where
  "drop_last_col M = map butlast M"

text \<open>\<^verbatim>\<open>M.index_select(1, torch.LongTensor(index))\<close>\<close>

definition index_select_cols :: "mat \<Rightarrow> nat list \<Rightarrow> error + mat" where
  "index_select_cols M index =
     (if list_all (\<lambda>t. t < ncols M) index then Inr (map (\<lambda>r. map (\<lambda>t. r ! t) index) M)
      else Inl IndexError)"

text \<open>\<^verbatim>\<open>torch.stack(ts, dim = 0)\<close> refuses an empty list. The tensors stacked below all
  have one shape.\<close>

definition stack :: "'a list \<Rightarrow> error + 'a list" where
  "stack ts = (if ts = [] then Inl RuntimeError else Inr ts)"

definition mat_add :: "mat \<Rightarrow> mat \<Rightarrow> mat" where
  "mat_add X Y = map2 (map2 (+)) X Y"

text \<open>\<^verbatim>\<open>S.sum(dim = 0)\<close> on a non-empty stack of matrices.\<close>

definition stack_sum :: "mat list \<Rightarrow> mat" where
  "stack_sum S = foldl mat_add (hd S) (tl S)"

subsection \<open>The notebook's global variables\<close>

text \<open>
  The routines read the observation sequence, the parameters and the two tables from
  global variables; \<^verbatim>\<open>forward\<close> and \<^verbatim>\<open>backward\<close> write the global tables \<^verbatim>\<open>alpha\<close> and
  \<^verbatim>\<open>beta\<close> in place and return them. The state is passed explicitly; a run that raises
  returns the exception only. The fields carry the prefix \<open>g_\<close>, and the flag \<^verbatim>\<open>log\<close> of
  the source is \<open>log_flag\<close> below, \<open>log\<close> being the logarithm.
\<close>

record globals =
  g_obs_sequence :: "nat list"
  g_pi :: vec
  g_A :: mat
  g_emission_matrix :: mat
  g_alpha :: mat
  g_beta :: mat

subsection \<open>Expectation: forward and backward\<close>

definition forward_step :: "mat \<Rightarrow> mat \<Rightarrow> bool \<Rightarrow> nat \<times> nat \<Rightarrow> mat \<Rightarrow> error + mat" where
  "forward_step A emission_matrix log_flag io alpha =
     (case io of (i, obs) \<Rightarrow>
        bind_err (col alpha i) (\<lambda>a.
        bind_err (vec_mat a A) (\<lambda>current_probability.
        bind_err (col emission_matrix obs) (\<lambda>e.
        bind_err (vmul current_probability e) (\<lambda>forward_probability.
        if log_flag
        then set_col alpha (i + 1)
               (vscale_div forward_probability (sum_list forward_probability))
        else set_col alpha (i + 1) forward_probability)))))"

definition forward :: "mat \<Rightarrow> bool \<Rightarrow> globals \<Rightarrow> error + mat \<times> globals" where
  "forward emission_matrix log_flag g =
     bind_err (seq_get (g_obs_sequence g) 0) (\<lambda>obs0.
     bind_err (col emission_matrix obs0) (\<lambda>e.
     bind_err (vmul (g_pi g) e) (\<lambda>alpha_initial.
     bind_err (if log_flag
               then set_col (g_alpha g) 0 (vscale_div alpha_initial (sum_list alpha_initial))
               else set_col (g_alpha g) 0 alpha_initial) (\<lambda>alpha0.
     bind_err (fold_err (forward_step (g_A g) emission_matrix log_flag)
                 (enumerate 0 (tl (g_obs_sequence g))) alpha0) (\<lambda>alpha'.
     Inr (alpha', g\<lparr>g_alpha := alpha'\<rparr>))))))"

text \<open>
  \<^verbatim>\<open>backward\<close>. The last column is assigned the two-element vector \<^verbatim>\<open>[1.0, 1.0]\<close>
  whatever the number of states. \<^verbatim>\<open>observation[:0:-1]\<close> runs from the last observation
  down to the second.
\<close>

definition backward_step :: "mat \<Rightarrow> mat \<Rightarrow> bool \<Rightarrow> nat \<times> nat \<Rightarrow> mat \<Rightarrow> error + mat" where
  "backward_step A emission_matrix log_flag io beta =
     (case io of (i, obs) \<Rightarrow>
        bind_err (col emission_matrix obs) (\<lambda>e.
        bind_err (mat_mul [e] A) (\<lambda>eA.
        bind_err (col_neg beta (i + 1)) (\<lambda>b.
        bind_err (mat_vec eA b) (\<lambda>beta'.
        if log_flag
        then set_col_neg beta (i + 2) (vscale_div beta' (sum_list beta'))
        else set_col_neg beta (i + 2) beta')))))"

definition backward :: "nat list \<Rightarrow> bool \<Rightarrow> globals \<Rightarrow> error + mat \<times> globals" where
  "backward observation log_flag g =
     bind_err (set_col_neg (g_beta g) 1 [1, 1]) (\<lambda>beta0.
     bind_err (fold_err (backward_step (g_A g) (g_emission_matrix g) log_flag)
                 (enumerate 0 (rev (tl observation))) beta0) (\<lambda>beta'.
     Inr (beta', g\<lparr>g_beta := beta'\<rparr>)))"

subsection \<open>Maximization: posteriors and re-estimation\<close>

definition calculate_gammas :: "mat \<Rightarrow> mat \<Rightarrow> error + mat" where
  "calculate_gammas alpha beta =
     bind_err (mat_mul alpha beta) (\<lambda>numerator.
     let denomenator = col_sums numerator
     in mat_div numerator [denomenator])"

text \<open>\<^verbatim>\<open>calculate_zetas\<close> takes the forward table as an argument and reads \<^verbatim>\<open>A\<close>,
  \<^verbatim>\<open>emission_matrix\<close> and \<^verbatim>\<open>beta\<close> from the global variables.\<close>

definition zeta_step :: "globals \<Rightarrow> nat list \<Rightarrow> nat \<times> vec \<Rightarrow> mat list \<Rightarrow> error + mat list" where
  "zeta_step g obs_seq tf zetas =
     (case tf of (t, fwd) \<Rightarrow>
        bind_err (mat_mul [fwd] (transpose_mat (g_A g))) (\<lambda>x.
        bind_err (seq_get obs_seq (t + 1)) (\<lambda>obs.
        bind_err (col (g_emission_matrix g) obs) (\<lambda>e.
        bind_err (mat_mul (transpose_mat x) [e]) (\<lambda>xe.
        bind_err (col (g_beta g) (t + 1)) (\<lambda>b.
        bind_err (mat_mul xe [b]) (\<lambda>numerator.
        let denomenator = sum_list (col_sums numerator);
            zeta = map (\<lambda>r. vscale_div r denomenator) numerator
        in Inr (zetas @ [zeta]))))))))"

definition calculate_zetas :: "mat \<Rightarrow> nat list \<Rightarrow> globals \<Rightarrow> error + mat" where
  "calculate_zetas alpha obs_seq g =
     bind_err (fold_err (zeta_step g obs_seq) (enumerate 0 (transpose_mat alpha)) []) (\<lambda>zetas.
     bind_err (stack zetas) (\<lambda>S. Inr (stack_sum S)))"

definition expected_output_occurrence :: "nat list \<Rightarrow> mat \<Rightarrow> vec \<Rightarrow> error + vec" where
  "expected_output_occurrence index step_gammas summed_gammas =
     bind_err (index_select_cols step_gammas index) (\<lambda>filtered_gamma.
     let sum_filtered_gamma = row_sums filtered_gamma
     in vdiv sum_filtered_gamma summed_gammas)"

text \<open>\<^verbatim>\<open>np.where(obs_sequence == searchval)[0]\<close>: the positions of a symbol, ascending.\<close>

definition np_where :: "nat list \<Rightarrow> nat \<Rightarrow> nat list" where
  "np_where obs searchval = filter (\<lambda>t. obs ! t = searchval) [0..<length obs]"

text \<open>
  \<^verbatim>\<open>re_estimate_parameters\<close>. Its first argument is not used. The emission matrix gets
  one column for each element of \<^verbatim>\<open>set(obs_sequence)\<close>, in the order in which Python
  iterates that set. The order is that of the hash table and not specified by the
  language, so it is the argument \<open>syms\<close>: a list without duplicates of the symbols
  that occur in \<^verbatim>\<open>obs_sequence\<close> (for the symbols \<open>0, \<dots>, k - 1\<close> of a small alphabet
  CPython yields them ascending).
\<close>

definition re_estimate_parameters ::
    "mat \<Rightarrow> mat \<Rightarrow> mat \<Rightarrow> nat list \<Rightarrow> globals \<Rightarrow> error + vec \<times> mat \<times> mat" where
  "re_estimate_parameters emission_matrix alpha beta syms g =
     bind_err (calculate_gammas alpha beta) (\<lambda>step_gammas.
     bind_err (col step_gammas 0) (\<lambda>new_pi.
     bind_err (calculate_zetas (drop_last_col alpha) (g_obs_sequence g) g) (\<lambda>summed_zetas.
     let summed_gammas = row_sums (drop_last_col step_gammas) in
     bind_err (mat_div summed_zetas (map (\<lambda>s. [s]) summed_gammas)) (\<lambda>new_transition_matrix.
     let summed_gammas = row_sums step_gammas;
         state_indices = map (np_where (g_obs_sequence g)) syms in
     bind_err (map_err (\<lambda>value. expected_output_occurrence value step_gammas summed_gammas)
                 state_indices) (\<lambda>new_emission_matrix.
     bind_err (stack new_emission_matrix) (\<lambda>S.
     Inr (new_pi, new_transition_matrix, transpose_mat S)))))))"

subsection \<open>One pass of the numeric example\<close>

text \<open>
  The test cells of the notebook: \<^verbatim>\<open>alpha = forward(emission_matrix, log = False)\<close>,
  \<^verbatim>\<open>beta = backward(obs_sequence, log = False)\<close>, then
  \<^verbatim>\<open>re_estimate_parameters(emission_matrix, alpha, beta)\<close>. The flag is a parameter here;
  the notebook passes \<open>False\<close>.
\<close>

definition one_pass :: "bool \<Rightarrow> nat list \<Rightarrow> globals \<Rightarrow> error + vec \<times> mat \<times> mat" where
  "one_pass log_flag syms g =
     bind_err (forward (g_emission_matrix g) log_flag g) (\<lambda>(alpha, g1).
     bind_err (backward (g_obs_sequence g1) log_flag g1) (\<lambda>(beta, g2).
     re_estimate_parameters (g_emission_matrix g2) alpha beta syms g2))"

text \<open>The global variables of the numeric example, with the two tables allocated as
  \<^verbatim>\<open>torch.zeros([A.shape[0], len(obs_sequence)])\<close>.\<close>

definition example :: globals where
  "example = \<lparr> g_obs_sequence = [0, 1, 2, 2],
               g_pi = [8 / 10, 2 / 10],
               g_A = [[6 / 10, 4 / 10], [3 / 10, 7 / 10]],
               g_emission_matrix = [[3 / 10, 4 / 10, 3 / 10], [4 / 10, 3 / 10, 3 / 10]],
               g_alpha = zeros 2 4,
               g_beta = zeros 2 4 \<rparr>"

subsection \<open>The notebook's formula for zeta\<close>

text \<open>
  The numerator of \<open>\<zeta>\<^sub>i\<^sub>j(t)\<close> as the notebook's text states it:
  \<open>\<alpha>\<^sub>i(t) a\<^sub>i\<^sub>j \<beta>\<^sub>j(t+1) b\<^sub>j(y\<^sub>t\<^sub>+\<^sub>1)\<close>, for a forward table \<open>al\<close> and the global
  parameters and backward table. It serves to state what \<^verbatim>\<open>calculate_zetas\<close> returns.
\<close>

definition zeta_num :: "globals \<Rightarrow> mat \<Rightarrow> nat list \<Rightarrow> nat \<Rightarrow> nat \<Rightarrow> nat \<Rightarrow> real" where
  "zeta_num g al obs t i j =
     al ! i ! t * g_A g ! i ! j * g_emission_matrix g ! j ! (obs ! (t + 1)) * g_beta g ! j ! (t + 1)"

subsection \<open>Agreement to four decimal places\<close>

text \<open>A decimal \<open>d\<close> with four places is the value \<open>x\<close> to four decimal places when it is
  \<open>x\<close> rounded, that is, at most half a unit of the fourth place away.\<close>

definition close4 :: "real \<Rightarrow> real \<Rightarrow> bool" where
  "close4 x d = (\<bar>x - d\<bar> \<le> 5 / 100000)"

definition vec_close4 :: "vec \<Rightarrow> vec \<Rightarrow> bool" where
  "vec_close4 = list_all2 close4"

definition mat_close4 :: "mat \<Rightarrow> mat \<Rightarrow> bool" where
  "mat_close4 = list_all2 vec_close4"

subsection \<open>A predicate for the proofs\<close>

text \<open>The keys that \<^verbatim>\<open>trans_mat_init\<close> counts are tuples of two values of the sequence.\<close>

definition pair_in :: "nat set \<Rightarrow> nat list \<Rightarrow> bool" where
  "pair_in S k = (length k = 2 \<and> set k \<subseteq> S)"

section \<open>Auxiliary facts\<close>

subsection \<open>Exceptions and counters\<close>

lemma bind_err_simps [simp]:
  "bind_err (Inr x) f = f x" "bind_err (Inl e) f = Inl e"
  by (simp_all add: bind_err_def)

lemma map_err_ok:
  "(\<And>x. x \<in> set xs \<Longrightarrow> \<exists>y. f x = Inr y \<and> Q y) \<Longrightarrow> \<exists>ys. map_err f xs = Inr ys \<and> list_all Q ys"
proof (induction xs)
  case Nil
  then show ?case by simp
next
  case (Cons a xs)
  then obtain y where y: "f a = Inr y" "Q y" by auto
  from Cons obtain ys where "map_err f xs = Inr ys" "list_all Q ys" by auto
  with y show ?case by simp
qed

lemma fold_err_ok:
  "P s \<Longrightarrow> (\<And>x s. x \<in> set xs \<Longrightarrow> P s \<Longrightarrow> \<exists>s'. f x s = Inr s' \<and> P s')
     \<Longrightarrow> \<exists>s'. fold_err f xs s = Inr s' \<and> P s'"
proof (induction xs arbitrary: s)
  case Nil
  then show ?case by simp
next
  case (Cons a xs)
  then obtain s1 where s1: "f a s = Inr s1" "P s1" by (meson list.set_intros(1))
  have "\<exists>s'. fold_err f xs s1 = Inr s' \<and> P s'"
    by (rule Cons.IH[OF s1(2)]) (simp add: Cons.prems(2))
  with s1 show ?case by simp
qed

lemma map_of_fold_count:
  "map_of (fold count_step xs c) k =
     (case map_of c k of
        None \<Rightarrow> (if k \<in> set xs then Some (count_list xs k) else None)
      | Some n \<Rightarrow> Some (n + count_list xs k))"
  by (induction xs arbitrary: c) (auto simp: count_step_def update_conv' split: option.splits)

lemma map_of_Counter:
  "map_of (Counter xs) k = (if k \<in> set xs then Some (count_list xs k) else None)"
  by (simp add: Counter_def map_of_fold_count)

lemma keys_Counter: "fst ` set (Counter xs) = set xs"
proof -
  have "fst ` set (Counter xs) = dom (map_of (Counter xs))"
    by (simp add: dom_map_of_conv_image_fst)
  also have "\<dots> = set xs"
    by (auto simp: map_of_Counter dom_def)
  finally show ?thesis .
qed

lemma counter_get_Counter: "counter_get (Counter xs) k = count_list xs k"
  by (auto simp: counter_get_def map_of_Counter count_list_0_iff)

lemma count_list_pos: "k \<in> set xs \<Longrightarrow> 0 < count_list xs k"
  using count_list_0_iff[of xs k] by auto

subsection \<open>The initializers\<close>

lemma is_mat_zeros: "is_mat n m (zeros n m)"
  by (simp add: is_mat_def zeros_def list_all_iff)

lemma set_item_ok:
  "is_mat n m M \<Longrightarrow> i < n \<Longrightarrow> j < m \<Longrightarrow> \<exists>M'. set_item M i j v = Inr M' \<and> is_mat n m M'"
  by (auto simp: is_mat_def set_item_def list_all_iff dest!: set_update_subset_insert[THEN subsetD])

lemma set_item_is_mat:
  "set_item M i j v = Inr M' \<Longrightarrow> is_mat n m M \<Longrightarrow> is_mat n m M'"
  by (auto simp: is_mat_def set_item_def list_all_iff split: if_splits dest!: set_update_subset_insert[THEN subsetD])

lemma trans_step_inv:
  "set xs \<subseteq> S \<Longrightarrow> (if n = 0 then temp = [] else length temp = 1 \<and> set temp \<subseteq> S)
     \<Longrightarrow> list_all (pair_in S) (concat sequences)
     \<Longrightarrow> list_all (pair_in S) (concat (snd (fold trans_step (enumerate n xs) (temp, sequences))))"
proof (induction xs arbitrary: n temp sequences)
  case Nil
  then show ?case by simp
next
  case (Cons a xs)
  show ?case
  proof (cases "n = 0")
    case True
    with Cons.prems have "fold trans_step (enumerate n (a # xs)) (temp, sequences)
        = fold trans_step (enumerate (Suc n) xs) ([a], sequences)"
      by (simp add: trans_step_def)
    moreover have "list_all (pair_in S) (concat (snd (fold trans_step (enumerate (Suc n) xs) ([a], sequences))))"
      using Cons.prems by (intro Cons.IH) auto
    ultimately show ?thesis by simp
  next
    case False
    with Cons.prems have "fold trans_step (enumerate n (a # xs)) (temp, sequences)
        = fold trans_step (enumerate (Suc n) xs) ([a], sequences @ [[temp @ [a]]])"
      by (simp add: trans_step_def Let_def)
    moreover have "list_all (pair_in S) (concat (snd (fold trans_step (enumerate (Suc n) xs) ([a], sequences @ [[temp @ [a]]]))))"
      using Cons.prems False by (intro Cons.IH) (auto simp: pair_in_def)
    ultimately show ?thesis by simp
  qed
qed

lemma trans_pairs:
  "list_all (pair_in (set sequence)) (concat (snd (fold trans_step (enumerate 0 sequence) ([], []))))"
  by (rule trans_step_inv) auto

lemma Counter_keys_all: "list_all P xs \<Longrightarrow> list_all (\<lambda>kv. P (fst kv)) (Counter xs)"
  using keys_Counter[of xs] by (auto simp: list_all_iff)

lemma trans_mat_init_shape:
  assumes "trans_mat_init sequence = Inr m"
  shows "is_mat (card (set sequence)) (card (set sequence)) m"
proof -
  let ?K = "card (set sequence)"
  have step: "\<And>kv s s'. trans_write kv s = Inr s' \<Longrightarrow> is_mat ?K ?K s \<Longrightarrow> is_mat ?K ?K s'"
    by (auto simp: trans_write_def bind_err_def split: prod.splits sum.splits dest: set_item_is_mat)
  have inv: "fold_err trans_write d s = Inr s' \<Longrightarrow> is_mat ?K ?K s \<Longrightarrow> is_mat ?K ?K s'" for d s s'
  proof (induction d arbitrary: s)
    case Nil
    then show ?case by simp
  next
    case (Cons a d)
    then show ?case by (auto simp: bind_err_def split: sum.splits dest: step)
  qed
  from assms show ?thesis
    by (auto simp: trans_mat_init_def Let_def bind_err_def split: sum.splits dest!: inv intro: is_mat_zeros)
qed

lemma trans_mat_init_ok:
  assumes "set sequence = {0..<K}"
  shows "\<exists>m. trans_mat_init sequence = Inr m \<and> is_mat K K m"
proof -
  let ?S = "set sequence"
  let ?ts = "Counter (concat (snd (fold trans_step (enumerate 0 sequence) ([], []))))"
  let ?f = "\<lambda>(key, val).
                bind_err (tuple_get key 0) (\<lambda>k0.
                bind_err (py_div val (counter_get (Counter sequence) k0)) (\<lambda>q.
                Inr (key, q)))"
  have K: "card ?S = K" using assms by simp
  have keys: "list_all (\<lambda>kv. pair_in ?S (fst kv)) ?ts"
    by (rule Counter_keys_all) (rule trans_pairs)
  have "\<exists>d. map_err ?f ?ts = Inr d \<and> list_all (\<lambda>kv. pair_in ?S (fst kv)) d"
  proof (rule map_err_ok)
    fix x assume "x \<in> set ?ts"
    with keys have p: "pair_in ?S (fst x)" by (simp add: list_all_iff)
    then have "fst x ! 0 \<in> ?S" by (auto simp: pair_in_def)
    then have "0 < count_list sequence (fst x ! 0)" by (rule count_list_pos)
    with p show "\<exists>y. ?f x = Inr y \<and> pair_in ?S (fst y)"
      by (cases x) (auto simp: tuple_get_def py_div_def counter_get_Counter pair_in_def)
  qed
  then obtain d where d: "map_err ?f ?ts = Inr d" "list_all (\<lambda>kv. pair_in ?S (fst kv)) d"
    by blast
  have "\<exists>m. fold_err trans_write d (zeros K K) = Inr m \<and> is_mat K K m"
  proof (rule fold_err_ok[where P = "is_mat K K"])
    show "is_mat K K (zeros K K)" by (rule is_mat_zeros)
  next
    fix x s assume x: "x \<in> set d" and s: "is_mat K K s"
    from x d(2) have p: "pair_in ?S (fst x)" by (simp add: list_all_iff)
    then have "fst x ! 0 < K" "fst x ! 1 < K" "length (fst x) = 2"
      using assms by (auto simp: pair_in_def subset_iff)
    with s show "\<exists>s'. trans_write x s = Inr s' \<and> is_mat K K s'"
      by (cases x) (auto simp: trans_write_def tuple_get_def set_item_ok)
  qed
  with d(1) K show ?thesis
    by (simp add: trans_mat_init_def)
qed


lemma emiss_state_init_shape:
  assumes "emiss_state_init hid_seq obs_seq = Inr m"
  shows "is_mat (card (set hid_seq)) (card (set obs_seq)) m"
proof -
  let ?K = "card (set hid_seq)" and ?L = "card (set obs_seq)"
  have step: "\<And>kv s s'. emiss_write kv s = Inr s' \<Longrightarrow> is_mat ?K ?L s \<Longrightarrow> is_mat ?K ?L s'"
    by (auto simp: emiss_write_def split: prod.splits dest: set_item_is_mat)
  have inv: "fold_err emiss_write d s = Inr s' \<Longrightarrow> is_mat ?K ?L s \<Longrightarrow> is_mat ?K ?L s'" for d s s'
  proof (induction d arbitrary: s)
    case Nil
    then show ?case by simp
  next
    case (Cons a d)
    then show ?case by (auto simp: bind_err_def split: sum.splits dest: step)
  qed
  from assms show ?thesis
    by (auto simp: emiss_state_init_def Let_def bind_err_def split: sum.splits dest!: inv intro: is_mat_zeros)
qed

lemma emiss_state_init_ok:
  assumes "\<forall>(h, ob) \<in> set (zip hid_seq obs_seq). h < card (set hid_seq) \<and> ob < card (set obs_seq)"
  shows "\<exists>m. emiss_state_init hid_seq obs_seq = Inr m \<and> is_mat (card (set hid_seq)) (card (set obs_seq)) m"
proof -
  let ?K = "card (set hid_seq)" and ?L = "card (set obs_seq)"
  let ?Z = "set (zip hid_seq obs_seq)"
  let ?hc = "Counter (concat (map (\<lambda>x. [x]) (zip hid_seq obs_seq)))"
  let ?f = "\<lambda>(key, val).
                bind_err (py_div (counter_get ?hc key)
                                 (counter_get (Counter hid_seq) (fst key))) (\<lambda>q.
                Inr (key, q))"
  have cc: "concat (map (\<lambda>x. [x]) zs) = zs" for zs :: "(nat \<times> nat) list"
    by (induction zs) auto
  have keys: "fst ` set ?hc = ?Z"
    by (simp add: keys_Counter cc)
  have "\<exists>d. map_err ?f ?hc = Inr d \<and> list_all (\<lambda>kv. fst kv \<in> ?Z) d"
  proof (rule map_err_ok)
    fix x assume "x \<in> set ?hc"
    with keys have p: "fst x \<in> ?Z" by force
    then have "fst (fst x) \<in> set hid_seq" by (cases x) (auto dest: set_zip_leftD)
    then have "0 < count_list hid_seq (fst (fst x))" by (rule count_list_pos)
    with p show "\<exists>y. ?f x = Inr y \<and> fst y \<in> ?Z"
      by (cases x) (auto simp: py_div_def counter_get_Counter)
  qed
  then obtain d where d: "map_err ?f ?hc = Inr d" "list_all (\<lambda>kv. fst kv \<in> ?Z) d"
    by blast
  have "\<exists>m. fold_err emiss_write d (zeros ?K ?L) = Inr m \<and> is_mat ?K ?L m"
  proof (rule fold_err_ok[where P = "is_mat ?K ?L"])
    show "is_mat ?K ?L (zeros ?K ?L)" by (rule is_mat_zeros)
  next
    fix x s assume x: "x \<in> set d" and s: "is_mat ?K ?L s"
    from x d(2) have p: "fst x \<in> ?Z" by (simp add: list_all_iff)
    with assms have "fst (fst x) < ?K" "snd (fst x) < ?L" by auto
    with s show "\<exists>s'. emiss_write x s = Inr s' \<and> is_mat ?K ?L s'"
      by (cases x) (auto simp: emiss_write_def set_item_ok)
  qed
  with d(1) show ?thesis
    by (simp add: emiss_state_init_def)
qed

lemma hidden_state_init_total: "\<exists>v. hidden_state_init sequence = Inr v"
proof (cases "sequence = []")
  case True
  then show ?thesis by (simp add: hidden_state_init_def Counter_def)
next
  case False
  have "\<exists>d. fold_err (\<lambda>state d. bind_err (py_div state (length sequence))
                        (\<lambda>p. Inr (AList.update state p d))) cs d0 = Inr d" for cs d0
    using False by (induction cs arbitrary: d0) (auto simp: py_div_def)
  then show ?thesis
    unfolding hidden_state_init_def by (metis bind_err_simps(1))
qed

subsection \<open>Tensor operations on well-shaped arguments\<close>

lemma map_err_pure: "map_err (\<lambda>x. Inr (f x)) xs = Inr (map f xs)"
  by (induction xs) simp_all

lemma map_err_cong_ok:
  "(\<And>x. x \<in> set xs \<Longrightarrow> f x = Inr (h x)) \<Longrightarrow> map_err f xs = Inr (map h xs)"
  by (induction xs) simp_all

lemma broadcast_same:
  "length xs = length ys \<Longrightarrow> broadcast (\<lambda>x y. Inr (f x y)) xs ys = Inr (map2 f xs ys)"
proof -
  assume "length xs = length ys"
  have "map_err (\<lambda>(x, y). Inr (f x y)) zs = Inr (map (\<lambda>(x, y). f x y) zs)" for zs :: "('a \<times> 'b) list"
    by (induction zs) auto
  with \<open>length xs = length ys\<close> show ?thesis by (simp add: broadcast_def)
qed

lemma broadcast_one_left: "broadcast f [x] ys = map_err (f x) ys"
  by (cases ys rule: list.exhaust; cases "tl ys") (auto simp: broadcast_def)

lemma broadcast_one_right: "broadcast f xs [y] = map_err (\<lambda>x. f x y) xs"
  by (cases xs rule: list.exhaust; cases "tl xs") (auto simp: broadcast_def)

lemma vmul_same: "length u = length v \<Longrightarrow> vmul u v = Inr (map2 (*) u v)"
  by (simp add: vmul_def broadcast_same)

lemma vdiv_same: "length u = length v \<Longrightarrow> vdiv u v = Inr (map2 (/) u v)"
  by (simp add: vdiv_def broadcast_same)

lemma is_mat_row: "is_mat n m M \<Longrightarrow> i < n \<Longrightarrow> length (M ! i) = m"
  by (auto simp: is_mat_def list_all_iff)

lemma is_mat_rowI: "is_mat n m M \<Longrightarrow> r \<in> set M \<Longrightarrow> length r = m"
  by (auto simp: is_mat_def list_all_iff)

lemma is_mat_length: "is_mat n m M \<Longrightarrow> length M = n"
  by (simp add: is_mat_def)

lemma is_matI: "length M = n \<Longrightarrow> (\<And>i. i < n \<Longrightarrow> length (M ! i) = m) \<Longrightarrow> is_mat n m M"
  by (auto simp: is_mat_def list_all_iff in_set_conv_nth)

lemma ncols_is_mat: "is_mat n m M \<Longrightarrow> 0 < n \<Longrightarrow> ncols M = m"
  by (cases M) (auto simp: is_mat_def ncols_def)

lemma col_ok:
  "is_mat n m M \<Longrightarrow> 0 < n \<Longrightarrow> j < m \<Longrightarrow> col M j = Inr (map (\<lambda>r. r ! j) M)"
  by (simp add: col_def ncols_is_mat)

lemma col_neg_ok:
  "is_mat n m M \<Longrightarrow> 0 < n \<Longrightarrow> 0 < k \<Longrightarrow> k \<le> m \<Longrightarrow> col_neg M k = Inr (map (\<lambda>r. r ! (m - k)) M)"
  by (simp add: col_neg_def ncols_is_mat col_ok)

lemma set_col_ok:
  assumes "is_mat n m M" "0 < n" "j < m" "length v = n"
  shows "\<exists>M'. set_col M j v = Inr M' \<and> is_mat n m M'
              \<and> (\<forall>i<n. \<forall>t<m. M' ! i ! t = (if t = j then v ! i else M ! i ! t))"
proof -
  let ?M' = "map2 (\<lambda>r x. r[j := x]) M v"
  have len: "length M = n" using assms(1) by (rule is_mat_length)
  have "set_col M j v = Inr ?M'"
    using assms len by (simp add: set_col_def ncols_is_mat)
  moreover have "is_mat n m ?M'"
    using assms len by (intro is_matI) (simp_all add: is_mat_row)
  moreover have "\<forall>i<n. \<forall>t<m. ?M' ! i ! t = (if t = j then v ! i else M ! i ! t)"
    using assms len by (simp add: is_mat_row)
  ultimately show ?thesis by blast
qed

lemma set_col_neg_ok:
  assumes "is_mat n m M" "0 < n" "0 < k" "k \<le> m" "length v = n"
  shows "\<exists>M'. set_col_neg M k v = Inr M' \<and> is_mat n m M'
              \<and> (\<forall>i<n. \<forall>t<m. M' ! i ! t = (if t = m - k then v ! i else M ! i ! t))"
proof -
  have "set_col_neg M k v = set_col M (m - k) v"
    using assms by (simp add: set_col_neg_def ncols_is_mat)
  moreover have "m - k < m" using assms by simp
  ultimately show ?thesis using set_col_ok[OF assms(1,2) _ assms(5), of "m - k"] by simp
qed

lemma sum_list_map2_nth:
  "length xs = length ys \<Longrightarrow> sum_list (map2 f xs ys) = (\<Sum>j<length xs. f (xs ! j) (ys ! j))"
  by (simp add: sum_list_sum_nth atLeast0LessThan)

lemma sum_list_map_nth:
  "sum_list (map f xs) = (\<Sum>j<length xs. f (xs ! j))"
  by (simp add: sum_list_sum_nth atLeast0LessThan)

lemma vec_mat_ok:
  assumes "is_mat n m M" "0 < n" "length v = n"
  shows "\<exists>w. vec_mat v M = Inr w \<and> length w = m \<and> (\<forall>k<m. w ! k = (\<Sum>j<n. v ! j * M ! j ! k))"
proof -
  have len: "length M = n" using assms(1) by (rule is_mat_length)
  let ?w = "map (\<lambda>k. sum_list (map2 (\<lambda>x r. x * r ! k) v M)) [0..<m]"
  have "vec_mat v M = Inr ?w"
    using assms len by (simp add: vec_mat_def ncols_is_mat)
  moreover have "\<forall>k<m. ?w ! k = (\<Sum>j<n. v ! j * M ! j ! k)"
    using assms len by (simp add: sum_list_map2_nth)
  ultimately show ?thesis by simp
qed

lemma mat_vec_ok:
  assumes "is_mat n m M" "0 < n" "length v = m"
  shows "\<exists>w. mat_vec M v = Inr w \<and> length w = n \<and> (\<forall>i<n. w ! i = (\<Sum>j<m. M ! i ! j * v ! j))"
proof -
  have len: "length M = n" using assms(1) by (rule is_mat_length)
  let ?w = "map (\<lambda>r. sum_list (map2 (*) r v)) M"
  have "mat_vec M v = Inr ?w"
    using assms by (simp add: mat_vec_def ncols_is_mat)
  moreover have "\<forall>i<n. ?w ! i = (\<Sum>j<m. M ! i ! j * v ! j)"
    using assms len by (simp add: sum_list_map2_nth is_mat_row)
  ultimately show ?thesis using len by simp
qed

lemma row_vec_mul_ok:
  assumes "is_mat n m M" "length v = m"
  shows "\<exists>X. mat_mul [v] M = Inr X \<and> is_mat n m X \<and> (\<forall>i<n. \<forall>j<m. X ! i ! j = v ! j * M ! i ! j)"
proof -
  have len: "length M = n" using assms(1) by (rule is_mat_length)
  let ?X = "map (\<lambda>r. map2 (*) v r) M"
  have "map_err (vmul v) M = Inr ?X"
    using assms by (intro map_err_cong_ok) (simp add: vmul_same is_mat_rowI)
  then have "mat_mul [v] M = Inr ?X"
    by (simp add: mat_mul_def broadcast_one_left)
  moreover have "is_mat n m ?X"
    using assms len by (intro is_matI) (simp_all add: is_mat_row)
  moreover have "\<forall>i<n. \<forall>j<m. ?X ! i ! j = v ! j * M ! i ! j"
    using assms len by (simp add: is_mat_row)
  ultimately show ?thesis by blast
qed

lemma mat_row_mul_ok:
  assumes "is_mat n m M" "length v = m"
  shows "\<exists>X. mat_mul M [v] = Inr X \<and> is_mat n m X \<and> (\<forall>i<n. \<forall>j<m. X ! i ! j = M ! i ! j * v ! j)"
proof -
  have len: "length M = n" using assms(1) by (rule is_mat_length)
  let ?X = "map (\<lambda>r. map2 (*) r v) M"
  have "map_err (\<lambda>r. vmul r v) M = Inr ?X"
    using assms by (intro map_err_cong_ok) (simp add: vmul_same is_mat_rowI)
  then have "mat_mul M [v] = Inr ?X"
    by (simp add: mat_mul_def broadcast_one_right)
  moreover have "is_mat n m ?X"
    using assms len by (intro is_matI) (simp_all add: is_mat_row)
  moreover have "\<forall>i<n. \<forall>j<m. ?X ! i ! j = M ! i ! j * v ! j"
    using assms len by (simp add: is_mat_row)
  ultimately show ?thesis by blast
qed

lemma mat_row_div_ok:
  assumes "is_mat n m M" "length v = m"
  shows "\<exists>X. mat_div M [v] = Inr X \<and> is_mat n m X \<and> (\<forall>i<n. \<forall>j<m. X ! i ! j = M ! i ! j / v ! j)"
proof -
  have len: "length M = n" using assms(1) by (rule is_mat_length)
  let ?X = "map (\<lambda>r. map2 (/) r v) M"
  have "map_err (\<lambda>r. vdiv r v) M = Inr ?X"
    using assms by (intro map_err_cong_ok) (simp add: vdiv_same is_mat_rowI)
  then have "mat_div M [v] = Inr ?X"
    by (simp add: mat_div_def broadcast_one_right)
  moreover have "is_mat n m ?X"
    using assms len by (intro is_matI) (simp_all add: is_mat_row)
  moreover have "\<forall>i<n. \<forall>j<m. ?X ! i ! j = M ! i ! j / v ! j"
    using assms len by (simp add: is_mat_row)
  ultimately show ?thesis by blast
qed

lemma mat_mul_ok:
  assumes "is_mat n m X" "is_mat n m Y"
  shows "\<exists>Z. mat_mul X Y = Inr Z \<and> is_mat n m Z \<and> (\<forall>i<n. \<forall>j<m. Z ! i ! j = X ! i ! j * Y ! i ! j)"
proof -
  have len: "length X = n" "length Y = n" using assms by (simp_all add: is_mat_length)
  let ?Z = "map (\<lambda>(x, y). map2 (*) x y) (zip X Y)"
  have "map_err (\<lambda>(x, y). vmul x y) (zip X Y) = Inr ?Z"
  proof (rule map_err_cong_ok)
    fix p assume "p \<in> set (zip X Y)"
    then have "fst p \<in> set X" "snd p \<in> set Y"
      by (metis prod.collapse set_zip_leftD, metis prod.collapse set_zip_rightD)
    with assms have "length (fst p) = m" "length (snd p) = m"
      by (simp_all add: is_mat_rowI)
    then show "(case p of (x, y) \<Rightarrow> vmul x y) = Inr (case p of (x, y) \<Rightarrow> map2 (*) x y)"
      by (cases p) (simp add: vmul_same)
  qed
  then have "mat_mul X Y = Inr ?Z"
    using len by (simp add: mat_mul_def broadcast_def)
  moreover have "is_mat n m ?Z"
    using assms len by (intro is_matI) (simp_all add: is_mat_row)
  moreover have "\<forall>i<n. \<forall>j<m. ?Z ! i ! j = X ! i ! j * Y ! i ! j"
    using assms len by (simp add: is_mat_row)
  ultimately show ?thesis by blast
qed

lemma transpose_mat_ok:
  assumes "is_mat n m M" "0 < n"
  shows "is_mat m n (transpose_mat M)" "\<And>i j. i < n \<Longrightarrow> j < m \<Longrightarrow> transpose_mat M ! j ! i = M ! i ! j"
    "transpose_mat M = map (\<lambda>j. map (\<lambda>r. r ! j) M) [0..<m]"
proof -
  have len: "length M = n" using assms(1) by (rule is_mat_length)
  show 3: "transpose_mat M = map (\<lambda>j. map (\<lambda>r. r ! j) M) [0..<m]"
    using assms by (simp add: transpose_mat_def ncols_is_mat)
  show "is_mat m n (transpose_mat M)"
    unfolding 3 using len by (intro is_matI) simp_all
  show "\<And>i j. i < n \<Longrightarrow> j < m \<Longrightarrow> transpose_mat M ! j ! i = M ! i ! j"
    unfolding 3 using len by simp
qed

lemma col_sums_ok:
  assumes "is_mat n m M" "0 < n"
  shows "length (col_sums M) = m" "\<And>t. t < m \<Longrightarrow> col_sums M ! t = (\<Sum>i<n. M ! i ! t)"
proof -
  have len: "length M = n" using assms(1) by (rule is_mat_length)
  show "length (col_sums M) = m" using assms by (simp add: col_sums_def ncols_is_mat)
  show "\<And>t. t < m \<Longrightarrow> col_sums M ! t = (\<Sum>i<n. M ! i ! t)"
    using assms len by (simp add: col_sums_def ncols_is_mat sum_list_map_nth)
qed

subsection \<open>Loops and posteriors\<close>

lemma fold_err_enumerate:
  assumes "P k s"
    and "\<And>i s. k \<le> i \<Longrightarrow> i < k + length xs \<Longrightarrow> P i s
            \<Longrightarrow> \<exists>s'. f (i, xs ! (i - k)) s = Inr s' \<and> P (Suc i) s'"
  shows "\<exists>s'. fold_err f (enumerate k xs) s = Inr s' \<and> P (k + length xs) s'"
  using assms
proof (induction xs arbitrary: k s)
  case Nil
  then show ?case by simp
next
  case (Cons x xs)
  from Cons.prems(2)[of k s] Cons.prems(1)
  obtain s1 where s1: "f (k, x) s = Inr s1" "P (Suc k) s1" by auto
  have "\<exists>s'. fold_err f (enumerate (Suc k) xs) s1 = Inr s' \<and> P (Suc k + length xs) s'"
  proof (rule Cons.IH[OF s1(2)])
    fix i s assume i: "Suc k \<le> i" "i < Suc k + length xs" and "P i s"
    with Cons.prems(2)[of i s] show "\<exists>s'. f (i, xs ! (i - Suc k)) s = Inr s' \<and> P (Suc i) s'"
      by (simp add: nth_Cons' Suc_diff_le)
  qed
  with s1 show ?case by simp
qed

lemma calculate_gammas_ok:
  assumes "is_mat n T alpha" "is_mat n T beta" "0 < n"
  shows "\<exists>G. calculate_gammas alpha beta = Inr G \<and> is_mat n T G
           \<and> (\<forall>i<n. \<forall>t<T. G ! i ! t
                 = alpha ! i ! t * beta ! i ! t / (\<Sum>k<n. alpha ! k ! t * beta ! k ! t))"
proof -
  from mat_mul_ok[OF assms(1,2)] obtain Z where
    Z: "mat_mul alpha beta = Inr Z" "is_mat n T Z"
       "\<forall>i<n. \<forall>j<T. Z ! i ! j = alpha ! i ! j * beta ! i ! j" by blast
  have cs: "length (col_sums Z) = T" "\<And>t. t < T \<Longrightarrow> col_sums Z ! t = (\<Sum>i<n. Z ! i ! t)"
    using col_sums_ok[OF Z(2) assms(3)] by auto
  from mat_row_div_ok[OF Z(2) cs(1)] obtain G where
    G: "mat_div Z [col_sums Z] = Inr G" "is_mat n T G"
       "\<forall>i<n. \<forall>j<T. G ! i ! j = Z ! i ! j / col_sums Z ! j" by blast
  have "\<forall>i<n. \<forall>t<T. G ! i ! t = alpha ! i ! t * beta ! i ! t / (\<Sum>k<n. alpha ! k ! t * beta ! k ! t)"
    using G(3) Z(3) cs(2) by simp
  with Z(1) G(1,2) show ?thesis by (simp add: calculate_gammas_def)
qed

subsection \<open>The forward and backward loops\<close>

lemma length_vscale_div: "length (vscale_div v s) = length v"
  by (simp add: vscale_div_def)

lemma forward_step_ok:
  assumes N: "0 < N" and A: "is_mat N N A" and em: "is_mat N M em" and al: "is_mat N T al"
    and i: "Suc i < T" and ob: "ob < M"
  shows "\<exists>al'. forward_step A em lf (i, ob) al = Inr al' \<and> is_mat N T al'
           \<and> (\<forall>r<N. \<forall>t<T. t \<noteq> Suc i \<longrightarrow> al' ! r ! t = al ! r ! t)
           \<and> (\<not> lf \<longrightarrow> (\<forall>r<N. al' ! r ! Suc i = em ! r ! ob * (\<Sum>j<N. al ! j ! i * A ! j ! r)))"
proof -
  have len: "length al = N" "length em = N" using al em by (simp_all add: is_mat_length)
  let ?a = "map (\<lambda>r. r ! i) al"
  have a: "col al i = Inr ?a" using al N i by (simp add: col_ok)
  from vec_mat_ok[OF A N, of ?a] len obtain w where
    w: "vec_mat ?a A = Inr w" "length w = N" "\<forall>k<N. w ! k = (\<Sum>j<N. al ! j ! i * A ! j ! k)"
    by auto
  let ?e = "map (\<lambda>r. r ! ob) em"
  have e: "col em ob = Inr ?e" using em N ob by (simp add: col_ok)
  let ?fp = "map2 (*) w ?e"
  have fp: "vmul w ?e = Inr ?fp" using w(2) len by (simp add: vmul_same)
  have lfp: "length ?fp = N" using w(2) len by simp
  let ?v = "if lf then vscale_div ?fp (sum_list ?fp) else ?fp"
  have lv: "length ?v = N" using lfp by (simp add: length_vscale_div)
  from set_col_ok[OF al N i lv] obtain al' where
    al': "set_col al (Suc i) ?v = Inr al'" "is_mat N T al'"
      "\<forall>r<N. \<forall>t<T. al' ! r ! t = (if t = Suc i then ?v ! r else al ! r ! t)" by blast
  have "forward_step A em lf (i, ob) al = Inr al'"
    using a w(1) e fp al'(1) by (simp add: forward_step_def split: if_splits)
  moreover have "\<forall>r<N. \<forall>t<T. t \<noteq> Suc i \<longrightarrow> al' ! r ! t = al ! r ! t"
    using al'(3) by simp
  moreover have "\<not> lf \<longrightarrow> (\<forall>r<N. al' ! r ! Suc i = em ! r ! ob * (\<Sum>j<N. al ! j ! i * A ! j ! r))"
    using al'(3) i w(2,3) len by (simp add: mult.commute)
  ultimately show ?thesis using al'(2) by blast
qed

lemma forward_ok:
  assumes N: "0 < N" and p: "length (g_pi g) = N" and A: "is_mat N N (g_A g)"
    and em: "is_mat N M em" and al: "is_mat N T (g_alpha g)"
    and T: "length (g_obs_sequence g) = T" "1 \<le> T"
    and obs: "\<forall>ob \<in> set (g_obs_sequence g). ob < M"
  shows "\<exists>al. forward em lf g = Inr (al, g\<lparr>g_alpha := al\<rparr>) \<and> is_mat N T al
           \<and> (\<not> lf \<longrightarrow> (\<forall>i<N. al ! i ! 0 = g_pi g ! i * em ! i ! (g_obs_sequence g ! 0))
              \<and> (\<forall>t. 1 \<le> t \<and> t \<le> T - 1 \<longrightarrow>
                    (\<forall>i<N. al ! i ! t = em ! i ! (g_obs_sequence g ! t)
                                   * (\<Sum>j<N. al ! j ! (t - 1) * g_A g ! j ! i))))"
proof -
  let ?obs = "g_obs_sequence g"
  define fwd_inv where "fwd_inv = (\<lambda>k al. is_mat N T al \<and>
      (\<not> lf \<longrightarrow> (\<forall>i<N. al ! i ! 0 = g_pi g ! i * em ! i ! (?obs ! 0))
        \<and> (\<forall>t. 1 \<le> t \<and> t \<le> k \<longrightarrow>
              (\<forall>i<N. al ! i ! t = em ! i ! (?obs ! t) * (\<Sum>j<N. al ! j ! (t - 1) * g_A g ! j ! i)))))"
  let ?P = "fwd_inv"
  have len: "length em = N" using em by (simp add: is_mat_length)
  have o0: "seq_get ?obs 0 = Inr (?obs ! 0)" using T by (simp add: seq_get_def)
  have "?obs ! 0 < M" using obs T by simp
  let ?e = "map (\<lambda>r. r ! (?obs ! 0)) em"
  have e: "col em (?obs ! 0) = Inr ?e" using em N \<open>?obs ! 0 < M\<close> by (simp add: col_ok)
  let ?ai = "map2 (*) (g_pi g) ?e"
  have ai: "vmul (g_pi g) ?e = Inr ?ai" using p len by (simp add: vmul_same)
  let ?v = "if lf then vscale_div ?ai (sum_list ?ai) else ?ai"
  have lv: "length ?v = N" using p len by (simp add: length_vscale_div)
  have "0 < T" using T by simp
  from set_col_ok[OF al N this lv] obtain al0 where
    al0: "set_col (g_alpha g) 0 ?v = Inr al0" "is_mat N T al0"
      "\<forall>r<N. \<forall>t<T. al0 ! r ! t = (if t = 0 then ?v ! r else g_alpha g ! r ! t)" by blast
  have P0: "?P 0 al0"
    using al0(2,3) p len \<open>0 < T\<close> by (simp add: fwd_inv_def)
  have "\<exists>al'. fold_err (forward_step (g_A g) em lf) (enumerate 0 (tl ?obs)) al0 = Inr al'
           \<and> ?P (0 + length (tl ?obs)) al'"
  proof (rule fold_err_enumerate[where P = ?P, OF P0])
    fix i s assume i: "i < 0 + length (tl ?obs)" and Ps: "?P i s"
    have Si: "Suc i < T" using i T by simp
    have nth: "tl ?obs ! (i - 0) = ?obs ! Suc i" using Si T by (simp add: nth_tl)
    have "?obs ! Suc i < M" using obs Si T by simp
    from forward_step_ok[OF N A em _ Si this, of s lf] Ps obtain s' where
      s': "forward_step (g_A g) em lf (i, ?obs ! Suc i) s = Inr s'" "is_mat N T s'"
        "\<forall>r<N. \<forall>t<T. t \<noteq> Suc i \<longrightarrow> s' ! r ! t = s ! r ! t"
        "\<not> lf \<longrightarrow> (\<forall>r<N. s' ! r ! Suc i
            = em ! r ! (?obs ! Suc i) * (\<Sum>j<N. s ! j ! i * g_A g ! j ! r))"
      unfolding fwd_inv_def by blast
    have "?P (Suc i) s'"
      unfolding fwd_inv_def
    proof (intro conjI impI allI)
      show "is_mat N T s'" by (rule s'(2))
    next
      fix r assume "\<not> lf" "r < N"
      then show "s' ! r ! 0 = g_pi g ! r * em ! r ! (?obs ! 0)"
        using s'(3) Ps \<open>0 < T\<close> by (simp add: fwd_inv_def)
    next
      fix t r assume nl: "\<not> lf" and t: "1 \<le> t \<and> t \<le> Suc i" and r: "r < N"
      show "s' ! r ! t = em ! r ! (?obs ! t) * (\<Sum>j<N. s' ! j ! (t - 1) * g_A g ! j ! r)"
      proof (cases "t = Suc i")
        case True
        have "(\<Sum>j<N. s' ! j ! i * g_A g ! j ! r) = (\<Sum>j<N. s ! j ! i * g_A g ! j ! r)"
          using s'(3) Si by (intro sum.cong) simp_all
        with True s'(4) nl r show ?thesis by simp
      next
        case False
        with t have t': "1 \<le> t" "t \<le> i" by simp_all
        have "(\<Sum>j<N. s' ! j ! (t - 1) * g_A g ! j ! r) = (\<Sum>j<N. s ! j ! (t - 1) * g_A g ! j ! r)"
          using s'(3) Si t' by (intro sum.cong) simp_all
        moreover have "s' ! r ! t = s ! r ! t" using s'(3) r t' Si by simp
        moreover have "s ! r ! t = em ! r ! (?obs ! t) * (\<Sum>j<N. s ! j ! (t - 1) * g_A g ! j ! r)"
          using Ps nl t' r by (simp add: fwd_inv_def)
        ultimately show ?thesis by simp
      qed
    qed
    with s'(1) nth show "\<exists>s'. forward_step (g_A g) em lf (i, tl ?obs ! (i - 0)) s = Inr s' \<and> ?P (Suc i) s'"
      by simp
  qed
  then obtain al' where
    al': "fold_err (forward_step (g_A g) em lf) (enumerate 0 (tl ?obs)) al0 = Inr al'"
      "?P (T - 1) al'" using T by auto
  have "forward em lf g = Inr (al', g\<lparr>g_alpha := al'\<rparr>)"
    using o0 e ai al0(1) al'(1) by (simp add: forward_def split: if_splits)
  with al'(2) show ?thesis unfolding fwd_inv_def by blast
qed


lemma backward_step_ok:
  assumes N: "0 < N" and A: "is_mat N N A" and em: "is_mat N M em" and be: "is_mat N T be"
    and i: "i + 2 \<le> T" and ob: "ob < M"
  shows "\<exists>be'. backward_step A em lf (i, ob) be = Inr be' \<and> is_mat N T be'
           \<and> (\<forall>r<N. \<forall>t<T. t \<noteq> T - (i + 2) \<longrightarrow> be' ! r ! t = be ! r ! t)
           \<and> (\<forall>r<N. be' ! r ! (T - (i + 2)) =
                 (if lf
                  then (\<Sum>j<N. A ! r ! j * em ! j ! ob * be ! j ! (T - (i + 1)))
                       / (\<Sum>k<N. \<Sum>j<N. A ! k ! j * em ! j ! ob * be ! j ! (T - (i + 1)))
                  else (\<Sum>j<N. A ! r ! j * em ! j ! ob * be ! j ! (T - (i + 1)))))"
proof -
  have len: "length be = N" "length em = N" using be em by (simp_all add: is_mat_length)
  let ?e = "map (\<lambda>r. r ! ob) em"
  have e: "col em ob = Inr ?e" using em N ob by (simp add: col_ok)
  from row_vec_mul_ok[OF A, of ?e] len obtain X where
    X: "mat_mul [?e] A = Inr X" "is_mat N N X" "\<forall>r<N. \<forall>j<N. X ! r ! j = em ! j ! ob * A ! r ! j"
    by auto
  let ?b = "map (\<lambda>r. r ! (T - (i + 1))) be"
  have b: "col_neg be (i + 1) = Inr ?b" using col_neg_ok[OF be N, of "i + 1"] i by simp
  from mat_vec_ok[OF X(2) N, of ?b] len obtain w where
    w: "mat_vec X ?b = Inr w" "length w = N" "\<forall>r<N. w ! r = (\<Sum>j<N. X ! r ! j * ?b ! j)"
    by auto
  have wr: "w ! r = (\<Sum>j<N. A ! r ! j * em ! j ! ob * be ! j ! (T - (i + 1)))" if "r < N" for r
    using w(3) X(3) that len by (simp add: mult.commute)
  have sw: "sum_list w = (\<Sum>k<N. \<Sum>j<N. A ! k ! j * em ! j ! ob * be ! j ! (T - (i + 1)))"
    using w(2) wr by (simp add: sum_list_sum_nth atLeast0LessThan)
  let ?v = "if lf then vscale_div w (sum_list w) else w"
  have lv: "length ?v = N" using w(2) by (simp add: length_vscale_div)
  have k: "0 < i + 2" "i + 2 \<le> T" using i by simp_all
  from set_col_neg_ok[OF be N k lv] obtain be' where
    be': "set_col_neg be (i + 2) ?v = Inr be'" "is_mat N T be'"
      "\<forall>r<N. \<forall>t<T. be' ! r ! t = (if t = T - (i + 2) then ?v ! r else be ! r ! t)" by blast
  have "backward_step A em lf (i, ob) be = Inr be'"
    using e X(1) b w(1) be'(1) by (simp add: backward_step_def split: if_splits)
  moreover have "\<forall>r<N. \<forall>t<T. t \<noteq> T - (i + 2) \<longrightarrow> be' ! r ! t = be ! r ! t"
    using be'(3) by simp
  moreover have "\<forall>r<N. be' ! r ! (T - (i + 2)) =
                 (if lf
                  then (\<Sum>j<N. A ! r ! j * em ! j ! ob * be ! j ! (T - (i + 1)))
                       / (\<Sum>k<N. \<Sum>j<N. A ! k ! j * em ! j ! ob * be ! j ! (T - (i + 1)))
                  else (\<Sum>j<N. A ! r ! j * em ! j ! ob * be ! j ! (T - (i + 1))))"
  proof (intro allI impI)
    fix r assume r: "r < N"
    have "T - (i + 2) < T" using i by simp
    then have "be' ! r ! (T - (i + 2)) = ?v ! r" using be'(3) r by simp
    also have "\<dots> = (if lf then w ! r / sum_list w else w ! r)"
      using r w(2) by (simp add: vscale_div_def)
    finally show "be' ! r ! (T - (i + 2)) =
                 (if lf
                  then (\<Sum>j<N. A ! r ! j * em ! j ! ob * be ! j ! (T - (i + 1)))
                       / (\<Sum>k<N. \<Sum>j<N. A ! k ! j * em ! j ! ob * be ! j ! (T - (i + 1)))
                  else (\<Sum>j<N. A ! r ! j * em ! j ! ob * be ! j ! (T - (i + 1))))"
      using wr[OF r] sw by simp
  qed
  ultimately show ?thesis using be'(2) by blast
qed

lemma backward_ok:
  assumes N: "N = 2" and A: "is_mat N N (g_A g)" and em: "is_mat N M (g_emission_matrix g)"
    and be: "is_mat N T (g_beta g)"
    and T: "length observation = T" "1 \<le> T"
    and obs: "\<forall>ob \<in> set observation. ob < M"
  shows "\<exists>be. backward observation lf g = Inr (be, g\<lparr>g_beta := be\<rparr>) \<and> is_mat N T be
           \<and> (\<forall>r<N. be ! r ! (T - 1) = 1)
           \<and> (\<forall>t. t + 1 < T \<longrightarrow> (\<forall>r<N. be ! r ! t =
                 (if lf
                  then (\<Sum>j<N. g_A g ! r ! j * g_emission_matrix g ! j ! (observation ! (t + 1))
                                 * be ! j ! (t + 1))
                       / (\<Sum>k<N. \<Sum>j<N. g_A g ! k ! j
                                 * g_emission_matrix g ! j ! (observation ! (t + 1)) * be ! j ! (t + 1))
                  else (\<Sum>j<N. g_A g ! r ! j * g_emission_matrix g ! j ! (observation ! (t + 1))
                                 * be ! j ! (t + 1)))))"
proof -
  let ?A = "g_A g" and ?em = "g_emission_matrix g"
  define F where "F = (\<lambda>be t r.
                 (if lf
                  then (\<Sum>j<N. ?A ! r ! j * ?em ! j ! (observation ! (t + 1)) * be ! j ! (t + 1))
                       / (\<Sum>k<N. \<Sum>j<N. ?A ! k ! j * ?em ! j ! (observation ! (t + 1)) * be ! j ! (t + 1))
                  else (\<Sum>j<N. ?A ! r ! j * ?em ! j ! (observation ! (t + 1)) * be ! j ! (t + 1))))"
  define P where "P = (\<lambda>k be. is_mat N T be \<and> (\<forall>r<N. be ! r ! (T - 1) = 1)
      \<and> (\<forall>t. T - 1 - k \<le> t \<and> t + 1 < T \<longrightarrow> (\<forall>r<N. be ! r ! t = F be t r)))"
  have N0: "0 < N" using N by simp
  have k1: "(0::nat) < 1" "1 \<le> T" using T by simp_all
  have l2: "length [1, 1::real] = N" using N by simp
  from set_col_neg_ok[OF be N0 k1 l2] obtain be0 where
    be0: "set_col_neg (g_beta g) 1 [1, 1] = Inr be0" "is_mat N T be0"
      "\<forall>r<N. \<forall>t<T. be0 ! r ! t = (if t = T - 1 then [1, 1] ! r else g_beta g ! r ! t)" by blast
  have ones: "[1, 1::real] ! r = 1" if "r < N" for r
    using that N by (cases r) simp_all
  have last0: "\<forall>r<N. be0 ! r ! (T - 1) = 1"
    using be0(3) T ones by simp
  have "\<not> (T - 1 - 0 \<le> t \<and> t + 1 < T)" for t by arith
  with be0(2) last0 have P0: "P 0 be0"
    unfolding P_def by blast
  have Fcong: "F s' t r = F s t r" if "\<forall>j<N. s' ! j ! (t + 1) = s ! j ! (t + 1)" for s s' t r
    using that unfolding F_def by simp
  have "\<exists>be'. fold_err (backward_step ?A ?em lf) (enumerate 0 (rev (tl observation))) be0 = Inr be'
           \<and> P (0 + length (rev (tl observation))) be'"
  proof (rule fold_err_enumerate[where P = P, OF P0])
    fix i s assume i: "i < 0 + length (rev (tl observation))" and Ps: "P i s"
    have i2: "i + 2 \<le> T" using i T by simp
    have nth: "rev (tl observation) ! (i - 0) = observation ! (T - (i + 1))"
      using i T by (simp add: rev_nth nth_tl Suc_diff_Suc)
    have obM: "observation ! (T - (i + 1)) < M" using obs i T by simp
    have sm: "is_mat N T s" using Ps by (simp add: P_def)
    from backward_step_ok[OF N0 A em sm i2 obM, of lf] obtain s' where
      s': "backward_step ?A ?em lf (i, observation ! (T - (i + 1))) s = Inr s'" "is_mat N T s'"
        "\<forall>r<N. \<forall>t<T. t \<noteq> T - (i + 2) \<longrightarrow> s' ! r ! t = s ! r ! t"
        "\<forall>r<N. s' ! r ! (T - (i + 2)) = F s (T - (i + 2)) r"
      unfolding F_def using i2 by (auto simp: Suc_diff_Suc)
    have "P (Suc i) s'"
      unfolding P_def
    proof (intro conjI impI allI)
      show "is_mat N T s'" by (rule s'(2))
    next
      fix r assume "r < N"
      then show "s' ! r ! (T - 1) = 1"
        using s'(3) Ps i2 by (simp add: P_def)
    next
      fix t r assume t: "T - 1 - Suc i \<le> t \<and> t + 1 < T" and r: "r < N"
      have same: "\<forall>j<N. s' ! j ! (t + 1) = s ! j ! (t + 1)"
        using s'(3) t i2 by simp
      show "s' ! r ! t = F s' t r"
      proof (cases "t = T - (i + 2)")
        case True
        with s'(4) r Fcong[OF same] show ?thesis by simp
      next
        case False
        with t i2 have t': "T - 1 - i \<le> t" "t + 1 < T" by arith+
        then have "s ! r ! t = F s t r" using Ps r by (simp add: P_def)
        moreover have "s' ! r ! t = s ! r ! t" using s'(3) r t' False by simp
        ultimately show ?thesis using Fcong[OF same] by simp
      qed
    qed
    with s'(1) nth show "\<exists>s'. backward_step ?A ?em lf (i, rev (tl observation) ! (i - 0)) s = Inr s' \<and> P (Suc i) s'"
      by simp
  qed
  then obtain be' where
    be': "fold_err (backward_step ?A ?em lf) (enumerate 0 (rev (tl observation))) be0 = Inr be'"
      "P (T - 1) be'" using T by auto
  have "backward observation lf g = Inr (be', g\<lparr>g_beta := be'\<rparr>)"
    using be0(1) be'(1) by (simp add: backward_def)
  moreover have "\<forall>t. t + 1 < T \<longrightarrow> (\<forall>r<N. be' ! r ! t = F be' t r)"
    using be'(2) by (simp add: P_def)
  ultimately show ?thesis using be'(2) unfolding P_def F_def by blast
qed

lemma backward_shape_mismatch:
  assumes "length (g_beta g) \<noteq> 2" "0 < ncols (g_beta g)"
  shows "backward observation lf g = Inl RuntimeError"
  using assms by (simp add: backward_def set_col_neg_def set_col_def)

subsection \<open>The zeta accumulator\<close>

lemma drop_last_col_ok:
  assumes "is_mat n (Suc m) M"
  shows "is_mat n m (drop_last_col M)"
    and "\<And>i t. i < n \<Longrightarrow> t < m \<Longrightarrow> drop_last_col M ! i ! t = M ! i ! t"
proof -
  have len: "length M = n" using assms by (rule is_mat_length)
  show "is_mat n m (drop_last_col M)"
    using assms len by (intro is_matI) (simp_all add: drop_last_col_def is_mat_row)
  show "\<And>i t. i < n \<Longrightarrow> t < m \<Longrightarrow> drop_last_col M ! i ! t = M ! i ! t"
    using assms len by (simp add: drop_last_col_def is_mat_row nth_butlast)
qed

lemma mat_add_ok:
  assumes "is_mat n m X" "is_mat n m Y"
  shows "is_mat n m (mat_add X Y)"
    and "\<And>i j. i < n \<Longrightarrow> j < m \<Longrightarrow> mat_add X Y ! i ! j = X ! i ! j + Y ! i ! j"
proof -
  have len: "length X = n" "length Y = n" using assms by (simp_all add: is_mat_length)
  show "is_mat n m (mat_add X Y)"
    using assms len by (intro is_matI) (simp_all add: mat_add_def is_mat_row)
  show "\<And>i j. i < n \<Longrightarrow> j < m \<Longrightarrow> mat_add X Y ! i ! j = X ! i ! j + Y ! i ! j"
    using assms len by (simp add: mat_add_def is_mat_row)
qed

lemma foldl_mat_add_ok:
  assumes "is_mat n m Z" "\<forall>z \<in> set zs. is_mat n m z"
  shows "is_mat n m (foldl mat_add Z zs)
     \<and> (\<forall>i<n. \<forall>j<m. foldl mat_add Z zs ! i ! j = Z ! i ! j + (\<Sum>t<length zs. zs ! t ! i ! j))"
  using assms
proof (induction zs arbitrary: Z)
  case Nil
  then show ?case by simp
next
  case (Cons z zs)
  have 1: "is_mat n m (mat_add Z z)" using Cons.prems by (simp add: mat_add_ok)
  have 2: "\<forall>z \<in> set zs. is_mat n m z" using Cons.prems by simp
  from Cons.IH[OF 1 2] Cons.prems show ?case
    by (simp add: mat_add_ok lessThan_Suc_eq_insert_0 sum.reindex zero_notin_Suc_image add.assoc
             sum.atMost_Suc_shift flip: lessThan_Suc_atMost)
qed

lemma stack_sum_ok:
  assumes "zs \<noteq> []" "\<forall>z \<in> set zs. is_mat n m z"
  shows "is_mat n m (stack_sum zs)"
    and "\<And>i j. i < n \<Longrightarrow> j < m \<Longrightarrow> stack_sum zs ! i ! j = (\<Sum>t<length zs. zs ! t ! i ! j)"
proof -
  from assms obtain z zs' where zs: "zs = z # zs'" by (cases zs) auto
  with assms have 1: "is_mat n m z" "\<forall>z \<in> set zs'. is_mat n m z" by simp_all
  from foldl_mat_add_ok[OF 1] show "is_mat n m (stack_sum zs)"
    using zs by (simp add: stack_sum_def)
  show "\<And>i j. i < n \<Longrightarrow> j < m \<Longrightarrow> stack_sum zs ! i ! j = (\<Sum>t<length zs. zs ! t ! i ! j)"
    using foldl_mat_add_ok[OF 1] zs
    by (simp add: stack_sum_def lessThan_Suc_eq_insert_0 sum.reindex zero_notin_Suc_image)
qed

lemma zeta_step_ok:
  assumes N: "0 < N" and A: "is_mat N N (g_A g)" and em: "is_mat N M (g_emission_matrix g)"
    and be: "is_mat N T (g_beta g)" and al: "is_mat N T' al" and t: "t < T'" "t + 1 < T"
    and obs: "t + 1 < length obs_seq" "obs_seq ! (t + 1) < M"
  shows "\<exists>Z. zeta_step g obs_seq (t, map (\<lambda>r. r ! t) al) zetas = Inr (zetas @ [Z])
           \<and> is_mat N N Z
           \<and> (\<forall>i<N. \<forall>j<N. Z ! i ! j
                 = zeta_num g al obs_seq t i j / (\<Sum>k<N. \<Sum>l<N. zeta_num g al obs_seq t k l))"
proof -
  let ?fwd = "map (\<lambda>r. r ! t) al" and ?ob = "obs_seq ! (t + 1)"
  have len: "length al = N" "length (g_emission_matrix g) = N" "length (g_beta g) = N"
    using al em be by (simp_all add: is_mat_length)
  have At: "is_mat N N (transpose_mat (g_A g))"
    "\<And>i j. i < N \<Longrightarrow> j < N \<Longrightarrow> transpose_mat (g_A g) ! j ! i = g_A g ! i ! j"
    using transpose_mat_ok[OF A N] by simp_all
  from row_vec_mul_ok[OF At(1), of ?fwd] len obtain x where
    x: "mat_mul [?fwd] (transpose_mat (g_A g)) = Inr x" "is_mat N N x"
       "\<forall>j<N. \<forall>i<N. x ! j ! i = al ! i ! t * g_A g ! i ! j"
    using At(2) by auto
  have xt: "is_mat N N (transpose_mat x)"
    "\<And>i j. i < N \<Longrightarrow> j < N \<Longrightarrow> transpose_mat x ! i ! j = x ! j ! i"
    using transpose_mat_ok[OF x(2) N] by simp_all
  have ob: "seq_get obs_seq (t + 1) = Inr ?ob" using obs by (simp add: seq_get_def)
  let ?e = "map (\<lambda>r. r ! ?ob) (g_emission_matrix g)"
  have e: "col (g_emission_matrix g) ?ob = Inr ?e" using em N obs by (simp add: col_ok)
  from mat_row_mul_ok[OF xt(1), of ?e] len obtain xe where
    xe: "mat_mul (transpose_mat x) [?e] = Inr xe" "is_mat N N xe"
        "\<forall>i<N. \<forall>j<N. xe ! i ! j = x ! j ! i * g_emission_matrix g ! j ! ?ob"
    using xt(2) by auto
  let ?b = "map (\<lambda>r. r ! (t + 1)) (g_beta g)"
  have b: "col (g_beta g) (t + 1) = Inr ?b" using be N t by (simp add: col_ok)
  from mat_row_mul_ok[OF xe(2), of ?b] len obtain num where
    num: "mat_mul xe [?b] = Inr num" "is_mat N N num"
         "\<forall>i<N. \<forall>j<N. num ! i ! j = xe ! i ! j * g_beta g ! j ! (t + 1)"
    by auto
  have numf: "num ! i ! j = zeta_num g al obs_seq t i j" if "i < N" "j < N" for i j
    using num(3) xe(3) x(3) that by (simp add: zeta_num_def)
  have "sum_list (col_sums num) = (\<Sum>l<N. \<Sum>k<N. num ! k ! l)"
    using col_sums_ok[OF num(2) N] by (simp add: sum_list_sum_nth atLeast0LessThan)
  also have "\<dots> = (\<Sum>k<N. \<Sum>l<N. num ! k ! l)" by (rule sum.swap)
  also have "\<dots> = (\<Sum>k<N. \<Sum>l<N. zeta_num g al obs_seq t k l)"
    using numf by simp
  finally have den: "sum_list (col_sums num) = (\<Sum>k<N. \<Sum>l<N. zeta_num g al obs_seq t k l)" .
  let ?Z = "map (\<lambda>r. vscale_div r (sum_list (col_sums num))) num"
  have lnum: "length num = N" using num(2) by (rule is_mat_length)
  have "zeta_step g obs_seq (t, ?fwd) zetas = Inr (zetas @ [?Z])"
    using x(1) ob e xe(1) b num(1) by (simp add: zeta_step_def)
  moreover have "is_mat N N ?Z"
    using num(2) lnum by (intro is_matI) (simp_all add: vscale_div_def is_mat_row)
  moreover have "\<forall>i<N. \<forall>j<N. ?Z ! i ! j
                 = zeta_num g al obs_seq t i j / (\<Sum>k<N. \<Sum>l<N. zeta_num g al obs_seq t k l)"
    using num(2) lnum numf den by (simp add: vscale_div_def is_mat_row)
  ultimately show ?thesis by blast
qed

lemma calculate_zetas_ok:
  assumes N: "0 < N" and A: "is_mat N N (g_A g)" and em: "is_mat N M (g_emission_matrix g)"
    and be: "is_mat N T (g_beta g)" and al: "is_mat N T' al" and T': "0 < T'" "T' < T"
    and obs: "length obs_seq = T" "\<forall>ob \<in> set obs_seq. ob < M"
  shows "\<exists>Z. calculate_zetas al obs_seq g = Inr Z \<and> is_mat N N Z
           \<and> (\<forall>i<N. \<forall>j<N. Z ! i ! j
                 = (\<Sum>t<T'. zeta_num g al obs_seq t i j
                             / (\<Sum>k<N. \<Sum>l<N. zeta_num g al obs_seq t k l)))"
proof -
  define F where "F = (\<lambda>t i j. zeta_num g al obs_seq t i j
                             / (\<Sum>k<N. \<Sum>l<N. zeta_num g al obs_seq t k l))"
  define P where "P = (\<lambda>k zs. length zs = k
      \<and> (\<forall>t<k. is_mat N N (zs ! t) \<and> (\<forall>i<N. \<forall>j<N. zs ! t ! i ! j = F t i j)))"
  let ?cols = "transpose_mat al"
  have cols: "?cols = map (\<lambda>t. map (\<lambda>r. r ! t) al) [0..<T']"
    using transpose_mat_ok(3)[OF al N] .
  have P0: "P 0 []" by (simp add: P_def)
  have "\<exists>zs. fold_err (zeta_step g obs_seq) (enumerate 0 ?cols) [] = Inr zs
          \<and> P (0 + length ?cols) zs"
  proof (rule fold_err_enumerate[where P = P, OF P0])
    fix t zs assume t: "t < 0 + length ?cols" and Pz: "P t zs"
    have t': "t < T'" using t cols by simp
    have c: "?cols ! (t - 0) = map (\<lambda>r. r ! t) al" using t' cols by simp
    have t1: "t + 1 < T" "t + 1 < length obs_seq" using t' T' obs by simp_all
    then have "obs_seq ! (t + 1) < M" using obs by simp
    from zeta_step_ok[OF N A em be al t' t1 this, of zs] obtain Z where
      Z: "zeta_step g obs_seq (t, map (\<lambda>r. r ! t) al) zs = Inr (zs @ [Z])" "is_mat N N Z"
         "\<forall>i<N. \<forall>j<N. Z ! i ! j = F t i j"
      unfolding F_def by blast
    have "P (Suc t) (zs @ [Z])"
      using Pz Z(2,3) by (auto simp: P_def nth_append less_Suc_eq)
    with Z(1) c show "\<exists>s'. zeta_step g obs_seq (t, ?cols ! (t - 0)) zs = Inr s' \<and> P (Suc t) s'"
      by simp
  qed
  then obtain zs where
    zs: "fold_err (zeta_step g obs_seq) (enumerate 0 ?cols) [] = Inr zs" "P T' zs"
    using cols by auto
  have ne: "zs \<noteq> []" and all: "\<forall>z \<in> set zs. is_mat N N z" and lzs: "length zs = T'"
    using zs(2) T' by (auto simp: P_def in_set_conv_nth)
  have "calculate_zetas al obs_seq g = Inr (stack_sum zs)"
    using zs(1) ne by (simp add: calculate_zetas_def stack_def)
  moreover have "is_mat N N (stack_sum zs)" using stack_sum_ok(1)[OF ne all] .
  moreover have "\<forall>i<N. \<forall>j<N. stack_sum zs ! i ! j = (\<Sum>t<T'. F t i j)"
    using stack_sum_ok(2)[OF ne all] zs(2) lzs by (simp add: P_def)
  ultimately show ?thesis unfolding F_def by blast
qed

lemma calculate_zetas_no_columns:
  assumes "ncols al = 0"
  shows "calculate_zetas al obs_seq g = Inl RuntimeError"
  using assms by (simp add: calculate_zetas_def transpose_mat_def stack_def)

subsection \<open>Re-estimation\<close>

lemma calculate_zetas_single_column:
  assumes N: "0 < N" and A: "is_mat N N (g_A g)" and al: "is_mat N 1 al"
    and T: "length obs_seq = 1"
  shows "calculate_zetas al obs_seq g = Inl IndexError"
proof -
  have cols: "transpose_mat al = [map (\<lambda>r. r ! 0) al]"
    using transpose_mat_ok(3)[OF al N] by simp
  have lal: "length al = N" using al by (rule is_mat_length)
  from row_vec_mul_ok[OF transpose_mat_ok(1)[OF A N], of "map (\<lambda>r. r ! 0) al"] lal obtain x where
    "mat_mul [map (\<lambda>r. r ! 0) al] (transpose_mat (g_A g)) = Inr x" by auto
  then have "zeta_step g obs_seq (0, map (\<lambda>r. r ! 0) al) [] = Inl IndexError"
    using T by (simp add: zeta_step_def seq_get_def)
  then show ?thesis by (simp add: calculate_zetas_def cols)
qed

lemma mat_col_div_ok:
  assumes "is_mat n m Z" "length sg = n"
  shows "\<exists>X. mat_div Z (map (\<lambda>s. [s]) sg) = Inr X \<and> is_mat n m X
           \<and> (\<forall>i<n. \<forall>j<m. X ! i ! j = Z ! i ! j / sg ! i)"
proof -
  have len: "length Z = n" using assms(1) by (rule is_mat_length)
  let ?X = "map (\<lambda>(r, sv). map (\<lambda>x. x / hd sv) r) (zip Z (map (\<lambda>s. [s]) sg))"
  have "map_err (\<lambda>(r, sv). vdiv r sv) (zip Z (map (\<lambda>s. [s]) sg)) = Inr ?X"
  proof (rule map_err_cong_ok)
    fix p assume "p \<in> set (zip Z (map (\<lambda>s. [s]) sg))"
    then have "snd p \<in> set (map (\<lambda>s. [s]) sg)"
      by (metis prod.collapse set_zip_rightD)
    then obtain s where "snd p = [s]" by auto
    then show "(case p of (r, sv) \<Rightarrow> vdiv r sv) = Inr (case p of (r, sv) \<Rightarrow> map (\<lambda>x. x / hd sv) r)"
      by (cases p) (simp add: vdiv_def broadcast_one_right map_err_pure)
  qed
  then have "mat_div Z (map (\<lambda>s. [s]) sg) = Inr ?X"
    using len assms(2) by (simp add: mat_div_def broadcast_def)
  moreover have "is_mat n m ?X"
    using assms len by (intro is_matI) (simp_all add: is_mat_row)
  moreover have "\<forall>i<n. \<forall>j<m. ?X ! i ! j = Z ! i ! j / sg ! i"
    using assms len by (simp add: is_mat_row)
  ultimately show ?thesis by blast
qed

lemma sum_list_np_where:
  "sum_list (map f (np_where obs k)) = (\<Sum>t \<in> {t. t < length obs \<and> obs ! t = k}. f t)"
proof -
  have "distinct (np_where obs k)" by (simp add: np_where_def)
  moreover have "set (np_where obs k) = {t. t < length obs \<and> obs ! t = k}"
    by (auto simp: np_where_def)
  ultimately show ?thesis by (simp add: sum_list_distinct_conv_sum_set)
qed

lemma expected_output_occurrence_ok:
  assumes N: "0 < N" and G: "is_mat N T G" and sg: "length sg = N"
    and idx: "\<forall>t \<in> set index. t < T"
  shows "expected_output_occurrence index G sg
           = Inr (map2 (/) (map (\<lambda>r. sum_list (map (\<lambda>t. r ! t) index)) G) sg)"
proof -
  have len: "length G = N" using G by (rule is_mat_length)
  have "index_select_cols G index = Inr (map (\<lambda>r. map (\<lambda>t. r ! t) index) G)"
    using idx G N by (simp add: index_select_cols_def ncols_is_mat list_all_iff)
  then show ?thesis
    using len sg by (simp add: expected_output_occurrence_def row_sums_def vdiv_same comp_def)
qed

lemma re_estimate_parameters_ok:
  assumes N: "0 < N" and A: "is_mat N N (g_A g)" and em: "is_mat N M (g_emission_matrix g)"
    and beg: "is_mat N T (g_beta g)" and al: "is_mat N T alpha" and be: "is_mat N T beta"
    and T: "2 \<le> T" and obs: "length (g_obs_sequence g) = T" "\<forall>ob \<in> set (g_obs_sequence g). ob < M"
    and syms: "syms \<noteq> []"
  shows "\<exists>G Z new_A new_B.
           calculate_gammas alpha beta = Inr G \<and> is_mat N T G
         \<and> calculate_zetas (drop_last_col alpha) (g_obs_sequence g) g = Inr Z \<and> is_mat N N Z
         \<and> re_estimate_parameters emission_matrix alpha beta syms g
             = Inr (map (\<lambda>r. r ! 0) G, new_A, new_B)
         \<and> is_mat N N new_A
         \<and> (\<forall>i<N. \<forall>j<N. new_A ! i ! j = Z ! i ! j / (\<Sum>t<T - 1. G ! i ! t))
         \<and> is_mat N (length syms) new_B
         \<and> (\<forall>i<N. \<forall>c<length syms. new_B ! i ! c
               = (\<Sum>t \<in> {t. t < T \<and> g_obs_sequence g ! t = syms ! c}. G ! i ! t)
                 / (\<Sum>t<T. G ! i ! t))"
proof -
  let ?obs = "g_obs_sequence g"
  obtain T' where T': "T = Suc T'" "0 < T'" using T by (cases T) auto
  from calculate_gammas_ok[OF al be N] obtain G where
    G: "calculate_gammas alpha beta = Inr G" "is_mat N T G" by blast
  have lG: "length G = N" using G(2) by (rule is_mat_length)
  have pi: "col G 0 = Inr (map (\<lambda>r. r ! 0) G)" using G(2) N T by (simp add: col_ok)
  have dal: "is_mat N T' (drop_last_col alpha)"
    using drop_last_col_ok(1)[of N T' alpha] al T' by simp
  have "T' < T" using T' by simp
  from calculate_zetas_ok[OF N A em beg dal T'(2) this obs] obtain Z where
    Z: "calculate_zetas (drop_last_col alpha) ?obs g = Inr Z" "is_mat N N Z" by blast
  have dG: "is_mat N T' (drop_last_col G)"
    "\<And>i t. i < N \<Longrightarrow> t < T' \<Longrightarrow> drop_last_col G ! i ! t = G ! i ! t"
    using drop_last_col_ok[of N T' G] G(2) T' by simp_all
  let ?sg1 = "row_sums (drop_last_col G)"
  have ldG: "length (drop_last_col G) = N" using dG(1) by (rule is_mat_length)
  have sg1: "length ?sg1 = N" "\<And>i. i < N \<Longrightarrow> ?sg1 ! i = (\<Sum>t<T - 1. G ! i ! t)"
    using ldG dG T' by (simp_all add: row_sums_def sum_list_sum_nth atLeast0LessThan is_mat_row)
  from mat_col_div_ok[OF Z(2) sg1(1)] obtain new_A where
    nA: "mat_div Z (map (\<lambda>s. [s]) ?sg1) = Inr new_A" "is_mat N N new_A"
        "\<forall>i<N. \<forall>j<N. new_A ! i ! j = Z ! i ! j / ?sg1 ! i" by blast
  let ?sg2 = "row_sums G"
  have sg2: "length ?sg2 = N" "\<And>i. i < N \<Longrightarrow> ?sg2 ! i = (\<Sum>t<T. G ! i ! t)"
    using lG G(2) by (simp_all add: row_sums_def sum_list_sum_nth atLeast0LessThan is_mat_row)
  let ?occ = "\<lambda>index. map2 (/) (map (\<lambda>r. sum_list (map (\<lambda>t. r ! t) index)) G) ?sg2"
  let ?S = "map ?occ (map (np_where ?obs) syms)"
  have "map_err (\<lambda>value. expected_output_occurrence value G ?sg2) (map (np_where ?obs) syms)
          = Inr ?S"
  proof (rule map_err_cong_ok)
    fix index assume "index \<in> set (map (np_where ?obs) syms)"
    then have "\<forall>t \<in> set index. t < T" using obs(1) by (auto simp: np_where_def)
    from expected_output_occurrence_ok[OF N G(2) sg2(1) this]
    show "expected_output_occurrence index G ?sg2 = Inr (?occ index)" .
  qed
  note nB = this
  have Sne: "?S \<noteq> []" using syms by simp
  have Smat: "is_mat (length syms) N ?S"
    using lG sg2(1) by (intro is_matI) simp_all
  have ls: "0 < length syms" using syms by simp
  note St = transpose_mat_ok[OF Smat ls]
  have re: "re_estimate_parameters emission_matrix alpha beta syms g
             = Inr (map (\<lambda>r. r ! 0) G, new_A, transpose_mat ?S)"
    using G(1) pi Z(1) nA(1) nB Sne
    by (simp add: re_estimate_parameters_def Let_def stack_def)
  have "transpose_mat ?S ! i ! c
          = (\<Sum>t \<in> {t. t < T \<and> ?obs ! t = syms ! c}. G ! i ! t) / (\<Sum>t<T. G ! i ! t)"
    if "i < N" "c < length syms" for i c
  proof -
    have "transpose_mat ?S ! i ! c = ?S ! c ! i" using St(2)[OF that(2,1)] .
    also have "\<dots> = sum_list (map (\<lambda>t. G ! i ! t) (np_where ?obs (syms ! c))) / ?sg2 ! i"
      using that lG sg2(1) by simp
    finally show ?thesis using that(1) obs(1) by (simp add: sum_list_np_where sg2(2))
  qed
  then have "\<forall>i<N. \<forall>c<length syms. transpose_mat ?S ! i ! c
          = (\<Sum>t \<in> {t. t < T \<and> ?obs ! t = syms ! c}. G ! i ! t) / (\<Sum>t<T. G ! i ! t)"
    by blast
  moreover have "\<forall>i<N. \<forall>j<N. new_A ! i ! j = Z ! i ! j / (\<Sum>t<T - 1. G ! i ! t)"
    using nA(3) sg1(2) by simp
  ultimately show ?thesis using G Z re nA(2) St(1) by blast
qed

subsection \<open>Sums of the re-estimated rows\<close>

lemma calculate_gammas_column_sum:
  assumes "is_mat n T alpha" "is_mat n T beta" "0 < n"
    and "calculate_gammas alpha beta = Inr G"
    and "t < T" and "(\<Sum>i<n. alpha ! i ! t * beta ! i ! t) \<noteq> 0"
  shows "(\<Sum>i<n. G ! i ! t) = 1"
proof -
  let ?d = "\<Sum>k<n. alpha ! k ! t * beta ! k ! t"
  from calculate_gammas_ok[OF assms(1-3)] assms(4)
  have G: "\<forall>i<n. \<forall>t<T. G ! i ! t = alpha ! i ! t * beta ! i ! t / (\<Sum>k<n. alpha ! k ! t * beta ! k ! t)"
    by auto
  have "(\<Sum>i<n. G ! i ! t) = (\<Sum>i<n. alpha ! i ! t * beta ! i ! t / ?d)"
    using G assms(5) by simp
  also have "\<dots> = ?d / ?d" by (rule sum_divide_distrib[symmetric])
  also have "\<dots> = 1" using assms(6) by simp
  finally show ?thesis .
qed

text \<open>The algebra behind the rows of the new transition matrix: with \<open>b\<close> the backward
  column at time \<open>t\<close>, obtained from the terms \<open>c i j\<close> of the recursion (normalized or
  not), the zeta numerators of row \<open>i\<close> add up to the gamma numerator.\<close>

lemma zeta_row_ratio:
  fixes a b :: "nat \<Rightarrow> real" and c :: "nat \<Rightarrow> nat \<Rightarrow> real"
  assumes b: "\<And>i. i < N \<Longrightarrow> b i =
      (if lf then (\<Sum>j<N. c i j) / (\<Sum>k<N. \<Sum>j<N. c k j) else (\<Sum>j<N. c i j))"
    and D: "(\<Sum>k<N. a k * b k) \<noteq> 0" and i: "i < N"
  shows "(\<Sum>j<N. a i * c i j / (\<Sum>k<N. \<Sum>l<N. a k * c k l)) = a i * b i / (\<Sum>k<N. a k * b k)"
proof -
  define R where "R = (\<lambda>i. \<Sum>j<N. c i j)"
  define s where "s = (\<Sum>k<N. R k)"
  have num: "(\<Sum>j<N. a i * c i j) = a i * R i" for i
    by (simp add: R_def sum_distrib_left)
  have lhs: "(\<Sum>j<N. a i * c i j / (\<Sum>k<N. \<Sum>l<N. a k * c k l))
               = a i * R i / (\<Sum>k<N. a k * R k)"
    by (simp add: num flip: sum_divide_distrib)
  show ?thesis
  proof (cases lf)
    case False
    then have "b k = R k" if "k < N" for k using b[OF that] by (simp add: R_def)
    then show ?thesis using lhs i by simp
  next
    case True
    then have bk: "b k = R k / s" if "k < N" for k using b[OF that] by (simp add: R_def s_def)
    have "s \<noteq> 0"
    proof
      assume "s = 0"
      then have "(\<Sum>k<N. a k * b k) = 0" using bk by simp
      with D show False by simp
    qed
    then have Rk: "R k = s * b k" if "k < N" for k using bk[OF that] by simp
    have "(\<Sum>k<N. a k * R k) = (\<Sum>k<N. s * (a k * b k))"
      using Rk by (intro sum.cong) simp_all
    also have "\<dots> = s * (\<Sum>k<N. a k * b k)" by (simp add: sum_distrib_left)
    finally have den: "(\<Sum>k<N. a k * R k) = s * (\<Sum>k<N. a k * b k)" .
    have "a i * R i / (\<Sum>k<N. a k * R k) = (s * (a i * b i)) / (s * (\<Sum>k<N. a k * b k))"
      using den Rk[OF i] by simp
    also have "\<dots> = a i * b i / (\<Sum>k<N. a k * b k)"
      using \<open>s \<noteq> 0\<close> by simp
    finally show ?thesis using lhs by simp
  qed
qed

lemma sum_over_symbols:
  fixes f :: "nat \<Rightarrow> real"
  assumes "distinct syms" "set syms = set obs"
  shows "(\<Sum>c<length syms. \<Sum>t \<in> {t. t < length obs \<and> obs ! t = syms ! c}. f t)
           = (\<Sum>t<length obs. f t)"
proof -
  define h where "h = (\<lambda>k. \<Sum>t \<in> {t. t < length obs \<and> obs ! t = k}. f t)"
  have "(\<Sum>c<length syms. h (syms ! c)) = sum_list (map h syms)"
    by (simp add: sum_list_sum_nth atLeast0LessThan)
  also have "\<dots> = sum h (set syms)"
    using assms(1) by (rule sum_list_distinct_conv_sum_set)
  also have "\<dots> = (\<Sum>k \<in> set obs. \<Sum>t \<in> {t \<in> {..<length obs}. obs ! t = k}. f t)"
    using assms(2) by (simp add: h_def)
  also have "\<dots> = sum f {..<length obs}"
    by (rule sum.group) auto
  finally show ?thesis by (simp add: h_def)
qed

text \<open>
  Where the expectation step returns its tables, which \<^verbatim>\<open>backward\<close> does for two states
  only, and the posterior denominators are non-zero, one pass returns parameters whose
  rows sum to 1, with and without normalization.
\<close>

lemma one_pass_sums:
  assumes N: "0 < N" and p: "length (g_pi g) = N" and A: "is_mat N N (g_A g)"
    and em: "is_mat N M (g_emission_matrix g)" and alg: "is_mat N T (g_alpha g)"
    and beg: "is_mat N T (g_beta g)"
    and len: "length (g_obs_sequence g) = T" and T: "2 \<le> T"
    and obs: "\<forall>ob \<in> set (g_obs_sequence g). ob < M"
    and syms: "distinct syms" "set syms = set (g_obs_sequence g)"
    and fw: "forward (g_emission_matrix g) log_flag g = Inr (alpha, g1)"
    and bw: "backward (g_obs_sequence g1) log_flag g1 = Inr (beta, g2)"
    and ga: "calculate_gammas alpha beta = Inr G"
    and D: "\<forall>t<T. (\<Sum>i<N. alpha ! i ! t * beta ! i ! t) \<noteq> 0"
    and S1: "\<forall>i<N. (\<Sum>t<T - 1. G ! i ! t) \<noteq> 0"
    and S2: "\<forall>i<N. (\<Sum>t<T. G ! i ! t) \<noteq> 0"
  shows "\<exists>new_pi new_A new_B. one_pass log_flag syms g = Inr (new_pi, new_A, new_B)
           \<and> length new_pi = N \<and> (\<Sum>i<N. new_pi ! i) = 1
           \<and> is_mat N N new_A \<and> (\<forall>i<N. (\<Sum>j<N. new_A ! i ! j) = 1)
           \<and> is_mat N (length syms) new_B \<and> (\<forall>i<N. (\<Sum>c<length syms. new_B ! i ! c) = 1)"
proof -
  let ?obs = "g_obs_sequence g" and ?A = "g_A g" and ?em = "g_emission_matrix g"
  have T1: "1 \<le> T" using T by simp
  \<comment> \<open>the forward table\<close>
  from forward_ok[OF N p A em alg len T1 obs, of log_flag] fw
  have al: "is_mat N T alpha" and g1: "g1 = g\<lparr>g_alpha := alpha\<rparr>" by auto
  \<comment> \<open>the backward table exists only for two states\<close>
  have N2: "N = 2"
  proof (rule ccontr)
    assume "N \<noteq> 2"
    then have "length (g_beta g1) \<noteq> 2" using beg g1 by (simp add: is_mat_length)
    moreover have "0 < ncols (g_beta g1)" using beg g1 N T by (simp add: ncols_is_mat)
    ultimately show False using bw backward_shape_mismatch by fastforce
  qed
  have A1: "is_mat N N (g_A g1)" and em1: "is_mat N M (g_emission_matrix g1)"
    and be1: "is_mat N T (g_beta g1)" and len1: "length (g_obs_sequence g1) = T"
    and obs1: "\<forall>ob \<in> set (g_obs_sequence g1). ob < M"
    using A em beg len obs g1 by simp_all
  from backward_ok[OF N2 A1 em1 be1 len1 T1 obs1, of log_flag] bw
  have be: "is_mat N T beta" and g2: "g2 = g1\<lparr>g_beta := beta\<rparr>"
    and rec: "\<forall>t. t + 1 < T \<longrightarrow> (\<forall>r<N. beta ! r ! t =
                 (if log_flag
                  then (\<Sum>j<N. g_A g1 ! r ! j * g_emission_matrix g1 ! j ! (g_obs_sequence g1 ! (t + 1))
                                 * beta ! j ! (t + 1))
                       / (\<Sum>k<N. \<Sum>j<N. g_A g1 ! k ! j
                                 * g_emission_matrix g1 ! j ! (g_obs_sequence g1 ! (t + 1)) * beta ! j ! (t + 1))
                  else (\<Sum>j<N. g_A g1 ! r ! j * g_emission_matrix g1 ! j ! (g_obs_sequence g1 ! (t + 1))
                                 * beta ! j ! (t + 1))))"
    by auto
  have f2: "g_A g2 = ?A" "g_emission_matrix g2 = ?em" "g_beta g2 = beta" "g_obs_sequence g2 = ?obs"
    "g_A g1 = ?A" "g_emission_matrix g1 = ?em" "g_obs_sequence g1 = ?obs"
    using g1 g2 by simp_all
  have A2: "is_mat N N (g_A g2)" and em2: "is_mat N M (g_emission_matrix g2)"
    and be2: "is_mat N T (g_beta g2)" and len2: "length (g_obs_sequence g2) = T"
    and obs2: "\<forall>ob \<in> set (g_obs_sequence g2). ob < M"
    using A em be len obs f2 by simp_all
  \<comment> \<open>gamma, zeta and the re-estimated parameters\<close>
  have "?obs \<noteq> []" using len T by auto
  then have ne: "syms \<noteq> []" using syms(2) by auto
  from re_estimate_parameters_ok[OF N A2 em2 be2 al be T len2 obs2 ne, of "g_emission_matrix g2"] ga
  obtain Z new_A new_B where r:
    "is_mat N T G"
    "calculate_zetas (drop_last_col alpha) (g_obs_sequence g2) g2 = Inr Z"
    "re_estimate_parameters (g_emission_matrix g2) alpha beta syms g2
       = Inr (map (\<lambda>r. r ! 0) G, new_A, new_B)"
    "is_mat N N new_A"
    "\<forall>i<N. \<forall>j<N. new_A ! i ! j = Z ! i ! j / (\<Sum>t<T - 1. G ! i ! t)"
    "is_mat N (length syms) new_B"
    "\<forall>i<N. \<forall>c<length syms. new_B ! i ! c
               = (\<Sum>t \<in> {t. t < T \<and> g_obs_sequence g2 ! t = syms ! c}. G ! i ! t)
                 / (\<Sum>t<T. G ! i ! t)"
    by auto
  have op: "one_pass log_flag syms g = Inr (map (\<lambda>r. r ! 0) G, new_A, new_B)"
    using fw bw r(3) by (simp add: one_pass_def)
  have lG: "length G = N" using r(1) by (rule is_mat_length)
  from calculate_gammas_ok[OF al be N] ga
  have Gf: "\<forall>i<N. \<forall>t<T. G ! i ! t
       = alpha ! i ! t * beta ! i ! t / (\<Sum>k<N. alpha ! k ! t * beta ! k ! t)" by auto
  \<comment> \<open>new_pi\<close>
  have "0 < T" using T by simp
  have pi1: "(\<Sum>i<N. map (\<lambda>r. r ! 0) G ! i) = 1"
    using calculate_gammas_column_sum[OF al be N ga \<open>0 < T\<close>] D \<open>0 < T\<close> lG by simp
  \<comment> \<open>rows of new_A\<close>
  obtain T' where T': "T = Suc T'" "0 < T'" using T by (cases T) auto
  have dal: "is_mat N T' (drop_last_col alpha)"
    "\<And>i t. i < N \<Longrightarrow> t < T' \<Longrightarrow> drop_last_col alpha ! i ! t = alpha ! i ! t"
    using drop_last_col_ok[of N T' alpha] al T' by simp_all
  have "T' < T" using T' by simp
  from calculate_zetas_ok[OF N A2 em2 be2 dal(1) T'(2) this len2 obs2] r(2)
  have Zf: "\<forall>i<N. \<forall>j<N. Z ! i ! j
                 = (\<Sum>t<T'. zeta_num g2 (drop_last_col alpha) (g_obs_sequence g2) t i j
                     / (\<Sum>k<N. \<Sum>l<N. zeta_num g2 (drop_last_col alpha) (g_obs_sequence g2) t k l))"
    by auto
  have rowt: "(\<Sum>j<N. zeta_num g2 (drop_last_col alpha) (g_obs_sequence g2) t i j
                     / (\<Sum>k<N. \<Sum>l<N. zeta_num g2 (drop_last_col alpha) (g_obs_sequence g2) t k l))
              = G ! i ! t" if t: "t < T'" and i: "i < N" for t i
  proof -
    define a where "a = (\<lambda>k. alpha ! k ! t)"
    define b where "b = (\<lambda>k. beta ! k ! t)"
    define c where "c = (\<lambda>k j. ?A ! k ! j * ?em ! j ! (?obs ! (t + 1)) * beta ! j ! (t + 1))"
    have zn: "zeta_num g2 (drop_last_col alpha) (g_obs_sequence g2) t k l = a k * c k l"
      if "k < N" for k l
      using that t dal(2) by (simp add: zeta_num_def f2 a_def c_def mult.assoc)
    have t1: "t + 1 < T" "t < T" using t T' by simp_all
    have bb: "b k = (if log_flag then (\<Sum>j<N. c k j) / (\<Sum>k<N. \<Sum>j<N. c k j) else (\<Sum>j<N. c k j))"
      if "k < N" for k
      using rec t1(1) that unfolding f2 b_def c_def by simp
    have DD: "(\<Sum>k<N. a k * b k) \<noteq> 0" using D t1(2) by (simp add: a_def b_def)
    have "(\<Sum>j<N. zeta_num g2 (drop_last_col alpha) (g_obs_sequence g2) t i j
                     / (\<Sum>k<N. \<Sum>l<N. zeta_num g2 (drop_last_col alpha) (g_obs_sequence g2) t k l))
          = (\<Sum>j<N. a i * c i j / (\<Sum>k<N. \<Sum>l<N. a k * c k l))"
      using zn i by simp
    also have "\<dots> = a i * b i / (\<Sum>k<N. a k * b k)"
      by (rule zeta_row_ratio[OF bb DD i])
    also have "\<dots> = G ! i ! t" using Gf i t1(2) by (simp add: a_def b_def)
    finally show ?thesis .
  qed
  have rowA: "(\<Sum>j<N. new_A ! i ! j) = 1" if i: "i < N" for i
  proof -
    let ?F = "\<lambda>t j. zeta_num g2 (drop_last_col alpha) (g_obs_sequence g2) t i j
                     / (\<Sum>k<N. \<Sum>l<N. zeta_num g2 (drop_last_col alpha) (g_obs_sequence g2) t k l)"
    let ?s = "\<Sum>t<T - 1. G ! i ! t"
    have "(\<Sum>j<N. Z ! i ! j) = (\<Sum>j<N. \<Sum>t<T'. ?F t j)" using Zf i by simp
    also have "\<dots> = (\<Sum>t<T'. \<Sum>j<N. ?F t j)" by (rule sum.swap)
    also have "\<dots> = (\<Sum>t<T'. G ! i ! t)" using rowt i by simp
    finally have Zs: "(\<Sum>j<N. Z ! i ! j) = ?s" using T' by simp
    have "(\<Sum>j<N. new_A ! i ! j) = (\<Sum>j<N. Z ! i ! j / ?s)" using r(5) i by simp
    also have "\<dots> = (\<Sum>j<N. Z ! i ! j) / ?s" by (rule sum_divide_distrib[symmetric])
    also have "\<dots> = 1" using Zs S1 i by simp
    finally show ?thesis .
  qed
  \<comment> \<open>rows of new_B\<close>
  have rowB: "(\<Sum>c<length syms. new_B ! i ! c) = 1" if i: "i < N" for i
  proof -
    let ?s = "\<Sum>t<T. G ! i ! t"
    have "(\<Sum>c<length syms. new_B ! i ! c)
            = (\<Sum>c<length syms. (\<Sum>t \<in> {t. t < length ?obs \<and> ?obs ! t = syms ! c}. G ! i ! t) / ?s)"
      using r(7) i len by (simp add: f2)
    also have "\<dots> = (\<Sum>c<length syms. \<Sum>t \<in> {t. t < length ?obs \<and> ?obs ! t = syms ! c}. G ! i ! t) / ?s"
      by (rule sum_divide_distrib[symmetric])
    also have "\<dots> = ?s / ?s"
      using sum_over_symbols[OF syms, of "\<lambda>t. G ! i ! t"] len by simp
    also have "\<dots> = 1" using S2 i by simp
    finally show ?thesis .
  qed
  show ?thesis
  proof (intro exI conjI)
    show "one_pass log_flag syms g = Inr (map (\<lambda>r. r ! 0) G, new_A, new_B)" by (rule op)
    show "length (map (\<lambda>r. r ! 0) G) = N" using lG by simp
    show "(\<Sum>i<N. map (\<lambda>r. r ! 0) G ! i) = 1" by (rule pi1)
    show "is_mat N N new_A" by (rule r(4))
    show "\<forall>i<N. (\<Sum>j<N. new_A ! i ! j) = 1" using rowA by blast
    show "is_mat N (length syms) new_B" by (rule r(6))
    show "\<forall>i<N. (\<Sum>c<length syms. new_B ! i ! c) = 1" using rowB by blast
  qed
qed

subsection \<open>The numeric example, stage by stage\<close>

text \<open>The exact values of the tables of the numeric example, as fractions.\<close>

lemma example_forward:
  "forward (g_emission_matrix example) False example
     = Inr ([[6 / 25, 42 / 625, 81 / 5000, 11259 / 2500000],
      [2 / 25, 57 / 1250, 441 / 25000, 14121 / 2500000]],
            example\<lparr>g_alpha := [[6 / 25, 42 / 625, 81 / 5000, 11259 / 2500000],
      [2 / 25, 57 / 1250, 441 / 25000, 14121 / 2500000]]\<rparr>)"
  by code_simp

lemma example_backward:
  "backward (g_obs_sequence example) False
     (example\<lparr>g_alpha := [[6 / 25, 42 / 625, 81 / 5000, 11259 / 2500000],
      [2 / 25, 57 / 1250, 441 / 25000, 14121 / 2500000]]\<rparr>)
     = Inr ([[81 / 2500, 9 / 100, 3 / 10, 1], [297 / 10000, 9 / 100, 3 / 10, 1]],
            example\<lparr>g_alpha := [[6 / 25, 42 / 625, 81 / 5000, 11259 / 2500000],
      [2 / 25, 57 / 1250, 441 / 25000, 14121 / 2500000]],
      g_beta := [[81 / 2500, 9 / 100, 3 / 10, 1], [297 / 10000, 9 / 100, 3 / 10, 1]]\<rparr>)"
  by code_simp

lemma example_gammas:
  "calculate_gammas
     [[6 / 25, 42 / 625, 81 / 5000, 11259 / 2500000],
      [2 / 25, 57 / 1250, 441 / 25000, 14121 / 2500000]]
     [[81 / 2500, 9 / 100, 3 / 10, 1], [297 / 10000, 9 / 100, 3 / 10, 1]]
     = Inr [[36 / 47, 28 / 47, 45 / 94, 417 / 940], [11 / 47, 19 / 47, 49 / 94, 523 / 940]]"
  by code_simp

lemma example_zetas:
  "calculate_zetas
     (drop_last_col [[6 / 25, 42 / 625, 81 / 5000, 11259 / 2500000],
      [2 / 25, 57 / 1250, 441 / 25000, 14121 / 2500000]])
     (g_obs_sequence example)
     (example\<lparr>g_alpha := [[6 / 25, 42 / 625, 81 / 5000, 11259 / 2500000],
      [2 / 25, 57 / 1250, 441 / 25000, 14121 / 2500000]],
      g_beta := [[81 / 2500, 9 / 100, 3 / 10, 1], [297 / 10000, 9 / 100, 3 / 10, 1]]\<rparr>)
     = Inr [[543 / 470, 161 / 235], [341 / 940, 749 / 940]]"
  by code_simp

lemma example_re_estimate:
  "re_estimate_parameters (g_emission_matrix example)
     [[6 / 25, 42 / 625, 81 / 5000, 11259 / 2500000],
      [2 / 25, 57 / 1250, 441 / 25000, 14121 / 2500000]]
     [[81 / 2500, 9 / 100, 3 / 10, 1], [297 / 10000, 9 / 100, 3 / 10, 1]]
     [0, 1, 2]
     (example\<lparr>g_alpha := [[6 / 25, 42 / 625, 81 / 5000, 11259 / 2500000],
      [2 / 25, 57 / 1250, 441 / 25000, 14121 / 2500000]],
      g_beta := [[81 / 2500, 9 / 100, 3 / 10, 1], [297 / 10000, 9 / 100, 3 / 10, 1]]\<rparr>)
     = Inr ([36 / 47, 11 / 47], [[543 / 865, 322 / 865], [341 / 1090, 749 / 1090]],
            [[720 / 2147, 560 / 2147, 867 / 2147], [220 / 1613, 380 / 1613, 1013 / 1613]])"
  by code_simp

lemma example_one_pass:
  "one_pass False [0, 1, 2] example
     = Inr ([36 / 47, 11 / 47], [[543 / 865, 322 / 865], [341 / 1090, 749 / 1090]],
            [[720 / 2147, 560 / 2147, 867 / 2147], [220 / 1613, 380 / 1613, 1013 / 1613]])"
  using example_forward example_backward example_re_estimate
  by (simp add: one_pass_def)

lemma example_one_pass_sums:
  "\<exists>new_pi new_A new_B. one_pass False [0, 1, 2] example = Inr (new_pi, new_A, new_B)
           \<and> length new_pi = 2 \<and> (\<Sum>i<2. new_pi ! i) = 1
           \<and> is_mat 2 2 new_A \<and> (\<forall>i<2. (\<Sum>j<2. new_A ! i ! j) = 1)
           \<and> is_mat 2 (length [0, 1, 2::nat]) new_B
           \<and> (\<forall>i<2. (\<Sum>c<length [0, 1, 2::nat]. new_B ! i ! c) = 1)"
proof -
  let ?al = "[[6 / 25, 42 / 625, 81 / 5000, 11259 / 2500000],
      [2 / 25, 57 / 1250, 441 / 25000, 14121 / 2500000]] :: real list list"
  let ?be = "[[81 / 2500, 9 / 100, 3 / 10, 1], [297 / 10000, 9 / 100, 3 / 10, 1]] :: real list list"
  let ?G = "[[36 / 47, 28 / 47, 45 / 94, 417 / 940], [11 / 47, 19 / 47, 49 / 94, 523 / 940]] :: real list list"
  have h: "(0::nat) < 2" "length (g_pi example) = 2" "is_mat 2 2 (g_A example)"
    "is_mat 2 3 (g_emission_matrix example)" "is_mat 2 4 (g_alpha example)"
    "is_mat 2 4 (g_beta example)"
    "length (g_obs_sequence example) = 4" "(2::nat) \<le> 4"
    "\<forall>ob \<in> set (g_obs_sequence example). ob < 3"
    "distinct [0, 1, 2::nat]" "set [0, 1, 2] = set (g_obs_sequence example)"
    by (simp_all add: example_def is_mat_def is_mat_zeros[unfolded is_mat_def])
  have b: "backward (g_obs_sequence (example\<lparr>g_alpha := ?al\<rparr>)) False (example\<lparr>g_alpha := ?al\<rparr>)
             = Inr (?be, example\<lparr>g_alpha := ?al, g_beta := ?be\<rparr>)"
    using example_backward by simp
  have d: "\<forall>t<4. (\<Sum>i<2. ?al ! i ! t * ?be ! i ! t) \<noteq> 0"
    by (simp add: less_Suc_eq eval_nat_numeral lessThan_Suc)
  have s1: "\<forall>i<2. (\<Sum>t<4 - 1. ?G ! i ! t) \<noteq> 0"
    by (simp add: less_Suc_eq eval_nat_numeral lessThan_Suc)
  have s2: "\<forall>i<2. (\<Sum>t<4. ?G ! i ! t) \<noteq> 0"
    by (simp add: less_Suc_eq eval_nat_numeral lessThan_Suc)
  show ?thesis
    by (rule one_pass_sums[OF h example_forward b example_gammas d s1 s2])
qed

subsection \<open>Evaluation of the initializers\<close>

lemmas init_eval =
  hidden_state_init_def trans_mat_init_def emiss_state_init_def Counter_def count_step_def
  py_div_def trans_step_def trans_write_def emiss_write_def tuple_get_def set_item_def
  zeros_def counter_get_def

section \<open>The claims\<close>

text \<open>
  Claim C1. For parameters with \<open>N\<close> states and an observation sequence of length
  \<open>T \<ge> 1\<close>, \<^verbatim>\<open>forward\<close> with normalization off returns a table \<open>alpha\<close> of \<open>N\<close> rows and
  \<open>T\<close> columns (the global table, overwritten) with
  \<open>alpha[i,0] = pi[i] * B[i,obs[0]]\<close> and, for \<open>1 \<le> t < T\<close>,
  \<open>alpha[i,t] = B[i,obs[t]] * (\<Sum>j. alpha[j,t-1] * A[j,i])\<close>; for \<open>T = 1\<close> each row
  consists of its initialization entry only.
\<close>

theorem forward_recurrence:
  assumes "0 < N" and "length (g_pi g) = N" and "is_mat N N (g_A g)"
    and "is_mat N M emission_matrix" and "is_mat N T (g_alpha g)"
    and "length (g_obs_sequence g) = T" and "1 \<le> T"
    and "\<forall>ob \<in> set (g_obs_sequence g). ob < M"
  shows "\<exists>alpha. forward emission_matrix False g = Inr (alpha, g\<lparr>g_alpha := alpha\<rparr>)
           \<and> is_mat N T alpha
           \<and> (\<forall>i<N. alpha ! i ! 0 = g_pi g ! i * emission_matrix ! i ! (g_obs_sequence g ! 0))
           \<and> (\<forall>t. 1 \<le> t \<and> t < T \<longrightarrow>
                 (\<forall>i<N. alpha ! i ! t = emission_matrix ! i ! (g_obs_sequence g ! t)
                                * (\<Sum>j<N. alpha ! j ! (t - 1) * g_A g ! j ! i)))
           \<and> (T = 1 \<longrightarrow>
                 (\<forall>i<N. alpha ! i = [g_pi g ! i * emission_matrix ! i ! (g_obs_sequence g ! 0)]))"
proof -
  from forward_ok[OF assms, of False] obtain alpha where
    al: "forward emission_matrix False g = Inr (alpha, g\<lparr>g_alpha := alpha\<rparr>)"
      "is_mat N T alpha"
      "\<forall>i<N. alpha ! i ! 0 = g_pi g ! i * emission_matrix ! i ! (g_obs_sequence g ! 0)"
      "\<forall>t. 1 \<le> t \<and> t \<le> T - 1 \<longrightarrow>
         (\<forall>i<N. alpha ! i ! t = emission_matrix ! i ! (g_obs_sequence g ! t)
                        * (\<Sum>j<N. alpha ! j ! (t - 1) * g_A g ! j ! i))"
    by auto
  have "alpha ! i = [g_pi g ! i * emission_matrix ! i ! (g_obs_sequence g ! 0)]"
    if "T = 1" "i < N" for i
  proof -
    have "length (alpha ! i) = 1" using al(2) that by (simp add: is_mat_row)
    then have "alpha ! i = [alpha ! i ! 0]"
      by (cases "alpha ! i") simp_all
    with al(3) that show ?thesis by simp
  qed
  moreover have "\<forall>t. 1 \<le> t \<and> t < T \<longrightarrow>
         (\<forall>i<N. alpha ! i ! t = emission_matrix ! i ! (g_obs_sequence g ! t)
                        * (\<Sum>j<N. alpha ! j ! (t - 1) * g_A g ! j ! i))"
  proof (intro allI impI)
    fix t i assume "1 \<le> t \<and> t < T" and i: "i < N"
    then have "1 \<le> t \<and> t \<le> T - 1" by arith
    with al(4) i show "alpha ! i ! t = emission_matrix ! i ! (g_obs_sequence g ! t)
                        * (\<Sum>j<N. alpha ! j ! (t - 1) * g_A g ! j ! i)" by blast
  qed
  ultimately show ?thesis using al(1,2,3) by blast
qed

theorem forward_recurrence_witness:
  "\<exists>alpha. forward (g_emission_matrix example) False example
               = Inr (alpha, example\<lparr>g_alpha := alpha\<rparr>)
           \<and> is_mat 2 4 alpha
           \<and> (\<forall>i<2. alpha ! i ! 0
                 = g_pi example ! i * g_emission_matrix example ! i ! (g_obs_sequence example ! 0))
           \<and> (\<forall>t. 1 \<le> t \<and> t < 4 \<longrightarrow>
                 (\<forall>i<2. alpha ! i ! t
                    = g_emission_matrix example ! i ! (g_obs_sequence example ! t)
                      * (\<Sum>j<2. alpha ! j ! (t - 1) * g_A example ! j ! i)))
           \<and> ((4::nat) = 1 \<longrightarrow>
                 (\<forall>i<2. alpha ! i
                    = [g_pi example ! i * g_emission_matrix example ! i ! (g_obs_sequence example ! 0)]))"
proof -
  have h: "(0::nat) < 2" "length (g_pi example) = 2" "is_mat 2 2 (g_A example)"
    "is_mat 2 3 (g_emission_matrix example)" "is_mat 2 4 (g_alpha example)"
    "length (g_obs_sequence example) = 4" "(1::nat) \<le> 4"
    "\<forall>ob \<in> set (g_obs_sequence example). ob < 3"
    by (simp_all add: example_def is_mat_def is_mat_zeros[unfolded is_mat_def])
  show ?thesis by (rule forward_recurrence[OF h])
qed

text \<open>
  Claim C2. For any number \<open>N \<ge> 1\<close> of states \<^verbatim>\<open>backward\<close> should return a table whose
  last column consists of \<open>N\<close> ones. The code assigns the fixed vector \<^verbatim>\<open>[1.0, 1.0]\<close> to
  the last column, which is a shape mismatch unless \<open>N = 2\<close>: with three states, and
  with one state, the call raises instead of returning a table.
\<close>

theorem backward_needs_two_states:
  "backward [0, 1] False
     \<lparr> g_obs_sequence = [0, 1],
       g_pi = [1 / 2, 1 / 4, 1 / 4],
       g_A = [[1 / 2, 1 / 4, 1 / 4], [1 / 4, 1 / 2, 1 / 4], [1 / 4, 1 / 4, 1 / 2]],
       g_emission_matrix = [[1 / 2, 1 / 2], [1 / 4, 3 / 4], [3 / 4, 1 / 4]],
       g_alpha = zeros 3 2,
       g_beta = zeros 3 2 \<rparr> = Inl RuntimeError
   \<and> backward [0, 1] False
     \<lparr> g_obs_sequence = [0, 1], g_pi = [1], g_A = [[1]],
       g_emission_matrix = [[1 / 2, 1 / 2]],
       g_alpha = zeros 1 2, g_beta = zeros 1 2 \<rparr> = Inl RuntimeError"
  by (simp add: backward_def set_col_neg_def set_col_def ncols_def zeros_def numeral_3_eq_3)




text \<open>
  Claim C4. For tables \<open>alpha\<close> and \<open>beta\<close> of \<open>n\<close> rows and \<open>T\<close> columns such that at
  every time \<open>t\<close> the sum over \<open>i\<close> of \<open>alpha[i,t] * beta[i,t]\<close> is non-zero,
  \<^verbatim>\<open>calculate_gammas\<close> returns a table of the same shape in which every column sums
  to 1.
\<close>

theorem gamma_columns_sum_to_one:
  assumes "is_mat n T alpha" "is_mat n T beta" "0 < n"
    and "\<forall>t<T. (\<Sum>i<n. alpha ! i ! t * beta ! i ! t) \<noteq> 0"
  shows "\<exists>G. calculate_gammas alpha beta = Inr G \<and> is_mat n T G \<and> (\<forall>t<T. (\<Sum>i<n. G ! i ! t) = 1)"
proof -
  from calculate_gammas_ok[OF assms(1-3)] obtain G where
    G: "calculate_gammas alpha beta = Inr G" "is_mat n T G"
       "\<forall>i<n. \<forall>t<T. G ! i ! t = alpha ! i ! t * beta ! i ! t / (\<Sum>k<n. alpha ! k ! t * beta ! k ! t)"
    by blast
  have "(\<Sum>i<n. G ! i ! t) = 1" if t: "t < T" for t
  proof -
    let ?d = "\<Sum>k<n. alpha ! k ! t * beta ! k ! t"
    have "(\<Sum>i<n. G ! i ! t) = (\<Sum>i<n. alpha ! i ! t * beta ! i ! t / ?d)"
      using G(3) t by simp
    also have "\<dots> = ?d / ?d" by (rule sum_divide_distrib[symmetric])
    also have "\<dots> = 1" using assms(4) t by simp
    finally show ?thesis .
  qed
  with G(1,2) show ?thesis by blast
qed

theorem gamma_columns_sum_to_one_witness:
  "is_mat 2 2 [[1, 2], [3, 4]] \<and> is_mat 2 2 [[1, 1], [1, 3]]
   \<and> (\<Sum>i<2. [[1, 2], [3, 4]] ! i ! 0 * [[1, 1], [1, 3]] ! i ! 0) \<noteq> (0::real)
   \<and> (\<Sum>i<2. [[1, 2], [3, 4]] ! i ! 1 * [[1, 1], [1, 3]] ! i ! 1) \<noteq> (0::real)
   \<and> (\<exists>G. calculate_gammas [[1, 2], [3, 4]] [[1, 1], [1, 3]] = Inr G \<and> is_mat 2 2 G
          \<and> (\<forall>t<2. (\<Sum>i<2. G ! i ! t) = 1))"
proof -
  have a: "is_mat 2 2 [[1, 2], [3, 4]]" and b: "is_mat 2 2 [[1, 1], [1, 3]]"
    by (simp_all add: is_mat_def)
  have d0: "(\<Sum>i<2. [[1, 2], [3, 4]] ! i ! 0 * [[1, 1], [1, 3]] ! i ! 0) \<noteq> (0::real)"
    and d1: "(\<Sum>i<2. [[1, 2], [3, 4]] ! i ! 1 * [[1, 1], [1, 3]] ! i ! 1) \<noteq> (0::real)"
    by (simp_all add: numeral_2_eq_2 lessThan_Suc)
  from d0 d1
  have d: "\<forall>t<2. (\<Sum>i<2. [[1, 2], [3, 4]] ! i ! t * [[1, 1], [1, 3]] ! i ! t) \<noteq> (0::real)"
    by (simp add: less_Suc_eq numeral_2_eq_2)
  show ?thesis
    using gamma_columns_sum_to_one[OF a b _ d] a b d0 d1 by simp
qed

text \<open>
  Claim C5. For every valid row-stochastic parameter triple and observation sequence
  of length \<open>T \<ge> 2\<close> with non-zero posterior denominators, one pass (forward, backward,
  gamma, zeta, re-estimation) should return parameters that are again row-stochastic.
  On a valid model with three states the pass returns no parameters at all:
  \<^verbatim>\<open>backward\<close> raises on its two-element last column, the defect of claim C2, with and
  without normalization. The initial distribution and all rows of the model below sum
  to 1, all its entries are positive, and the two observations are symbols of its
  alphabet. (For two states the invariant holds, see \<open>one_pass_sums\<close>.)
\<close>

theorem one_pass_fails_for_three_states:
  "sum_list [1 / 2, 1 / 4, 1 / 4 :: real] = 1
   \<and> map sum_list [[1 / 2, 1 / 4, 1 / 4], [1 / 4, 1 / 2, 1 / 4], [1 / 4, 1 / 4, 1 / 2 :: real]]
       = [1, 1, 1]
   \<and> map sum_list [[1 / 2, 1 / 2], [1 / 4, 3 / 4], [3 / 4, 1 / 4 :: real]] = [1, 1, 1]
   \<and> one_pass False [0, 1]
       \<lparr> g_obs_sequence = [0, 1],
        g_pi = [1 / 2, 1 / 4, 1 / 4],
        g_A = [[1 / 2, 1 / 4, 1 / 4], [1 / 4, 1 / 2, 1 / 4], [1 / 4, 1 / 4, 1 / 2]],
        g_emission_matrix = [[1 / 2, 1 / 2], [1 / 4, 3 / 4], [3 / 4, 1 / 4]],
        g_alpha = zeros 3 2,
        g_beta = zeros 3 2 \<rparr> = Inl RuntimeError
   \<and> one_pass True [0, 1]
       \<lparr> g_obs_sequence = [0, 1],
        g_pi = [1 / 2, 1 / 4, 1 / 4],
        g_A = [[1 / 2, 1 / 4, 1 / 4], [1 / 4, 1 / 2, 1 / 4], [1 / 4, 1 / 4, 1 / 2]],
        g_emission_matrix = [[1 / 2, 1 / 2], [1 / 4, 3 / 4], [3 / 4, 1 / 4]],
        g_alpha = zeros 3 2,
        g_beta = zeros 3 2 \<rparr> = Inl RuntimeError"
proof -
  have "sum_list [1 / 2, 1 / 4, 1 / 4 :: real] = 1"
    "map sum_list [[1 / 2, 1 / 4, 1 / 4], [1 / 4, 1 / 2, 1 / 4], [1 / 4, 1 / 4, 1 / 2 :: real]]
       = [1, 1, 1]"
    "map sum_list [[1 / 2, 1 / 2], [1 / 4, 3 / 4], [3 / 4, 1 / 4 :: real]] = [1, 1, 1]"
    by simp_all
  moreover have "one_pass False [0, 1]
       \<lparr> g_obs_sequence = [0, 1],
        g_pi = [1 / 2, 1 / 4, 1 / 4],
        g_A = [[1 / 2, 1 / 4, 1 / 4], [1 / 4, 1 / 2, 1 / 4], [1 / 4, 1 / 4, 1 / 2]],
        g_emission_matrix = [[1 / 2, 1 / 2], [1 / 4, 3 / 4], [3 / 4, 1 / 4]],
        g_alpha = zeros 3 2,
        g_beta = zeros 3 2 \<rparr> = Inl RuntimeError"
    by code_simp
  moreover have "one_pass True [0, 1]
       \<lparr> g_obs_sequence = [0, 1],
        g_pi = [1 / 2, 1 / 4, 1 / 4],
        g_A = [[1 / 2, 1 / 4, 1 / 4], [1 / 4, 1 / 2, 1 / 4], [1 / 4, 1 / 4, 1 / 2]],
        g_emission_matrix = [[1 / 2, 1 / 2], [1 / 4, 3 / 4], [3 / 4, 1 / 4]],
        g_alpha = zeros 3 2,
        g_beta = zeros 3 2 \<rparr> = Inl RuntimeError"
    by code_simp
  ultimately show ?thesis by simp
qed

text \<open>
  Claim C6. On the numeric example (\<open>pi = [0.8, 0.2]\<close>, \<open>A = [[0.6, 0.4], [0.3, 0.7]]\<close>,
  \<open>B = [[0.3, 0.4, 0.3], [0.4, 0.3, 0.3]]\<close>, observations \<open>[0, 1, 2, 2]\<close>, normalization
  off) the tables \<open>alpha\<close>, \<open>beta\<close>, \<open>gamma\<close>, the summed zeta and the re-estimated
  parameters agree to four decimal places with the values displayed in the notebook.
\<close>

theorem numeric_example_first_pass:
  "forward (g_emission_matrix example) False example
     = Inr ([[6 / 25, 42 / 625, 81 / 5000, 11259 / 2500000],
      [2 / 25, 57 / 1250, 441 / 25000, 14121 / 2500000]],
            example\<lparr>g_alpha := [[6 / 25, 42 / 625, 81 / 5000, 11259 / 2500000],
      [2 / 25, 57 / 1250, 441 / 25000, 14121 / 2500000]]\<rparr>)
   \<and> mat_close4 [[6 / 25, 42 / 625, 81 / 5000, 11259 / 2500000],
      [2 / 25, 57 / 1250, 441 / 25000, 14121 / 2500000]]
        [[0.2400, 0.0672, 0.0162, 0.0045], [0.0800, 0.0456, 0.0176, 0.0056]]
   \<and> backward (g_obs_sequence example) False
       (example\<lparr>g_alpha := [[6 / 25, 42 / 625, 81 / 5000, 11259 / 2500000],
      [2 / 25, 57 / 1250, 441 / 25000, 14121 / 2500000]]\<rparr>)
     = Inr ([[81 / 2500, 9 / 100, 3 / 10, 1], [297 / 10000, 9 / 100, 3 / 10, 1]],
            example\<lparr>g_alpha := [[6 / 25, 42 / 625, 81 / 5000, 11259 / 2500000],
      [2 / 25, 57 / 1250, 441 / 25000, 14121 / 2500000]],
      g_beta := [[81 / 2500, 9 / 100, 3 / 10, 1], [297 / 10000, 9 / 100, 3 / 10, 1]]\<rparr>)
   \<and> mat_close4 [[81 / 2500, 9 / 100, 3 / 10, 1], [297 / 10000, 9 / 100, 3 / 10, 1]]
        [[0.0324, 0.0900, 0.3000, 1.0000], [0.0297, 0.0900, 0.3000, 1.0000]]
   \<and> calculate_gammas
       [[6 / 25, 42 / 625, 81 / 5000, 11259 / 2500000],
      [2 / 25, 57 / 1250, 441 / 25000, 14121 / 2500000]]
       [[81 / 2500, 9 / 100, 3 / 10, 1], [297 / 10000, 9 / 100, 3 / 10, 1]]
     = Inr [[36 / 47, 28 / 47, 45 / 94, 417 / 940], [11 / 47, 19 / 47, 49 / 94, 523 / 940]]
   \<and> mat_close4 [[36 / 47, 28 / 47, 45 / 94, 417 / 940], [11 / 47, 19 / 47, 49 / 94, 523 / 940]]
        [[0.7660, 0.5957, 0.4787, 0.4436], [0.2340, 0.4043, 0.5213, 0.5564]]
   \<and> calculate_zetas
       (drop_last_col [[6 / 25, 42 / 625, 81 / 5000, 11259 / 2500000],
      [2 / 25, 57 / 1250, 441 / 25000, 14121 / 2500000]])
       (g_obs_sequence example)
       (example\<lparr>g_alpha := [[6 / 25, 42 / 625, 81 / 5000, 11259 / 2500000],
      [2 / 25, 57 / 1250, 441 / 25000, 14121 / 2500000]],
      g_beta := [[81 / 2500, 9 / 100, 3 / 10, 1], [297 / 10000, 9 / 100, 3 / 10, 1]]\<rparr>)
     = Inr [[543 / 470, 161 / 235], [341 / 940, 749 / 940]]
   \<and> mat_close4 [[543 / 470, 161 / 235], [341 / 940, 749 / 940]] [[1.1553, 0.6851], [0.3628, 0.7968]]
   \<and> one_pass False [0, 1, 2] example
     = Inr ([36 / 47, 11 / 47], [[543 / 865, 322 / 865], [341 / 1090, 749 / 1090]],
            [[720 / 2147, 560 / 2147, 867 / 2147], [220 / 1613, 380 / 1613, 1013 / 1613]])
   \<and> vec_close4 [36 / 47, 11 / 47] [0.7660, 0.2340]
   \<and> mat_close4 [[543 / 865, 322 / 865], [341 / 1090, 749 / 1090]] [[0.6277, 0.3723], [0.3128, 0.6872]]
   \<and> mat_close4 [[720 / 2147, 560 / 2147, 867 / 2147], [220 / 1613, 380 / 1613, 1013 / 1613]]
        [[0.3354, 0.2608, 0.4038], [0.1364, 0.2356, 0.6280]]"
proof -
  have "mat_close4 [[6 / 25, 42 / 625, 81 / 5000, 11259 / 2500000],
      [2 / 25, 57 / 1250, 441 / 25000, 14121 / 2500000]]
        [[0.2400, 0.0672, 0.0162, 0.0045], [0.0800, 0.0456, 0.0176, 0.0056]]"
    "mat_close4 [[81 / 2500, 9 / 100, 3 / 10, 1], [297 / 10000, 9 / 100, 3 / 10, 1]]
        [[0.0324, 0.0900, 0.3000, 1.0000], [0.0297, 0.0900, 0.3000, 1.0000]]"
    "mat_close4 [[36 / 47, 28 / 47, 45 / 94, 417 / 940], [11 / 47, 19 / 47, 49 / 94, 523 / 940]]
        [[0.7660, 0.5957, 0.4787, 0.4436], [0.2340, 0.4043, 0.5213, 0.5564]]"
    "mat_close4 [[543 / 470, 161 / 235], [341 / 940, 749 / 940]] [[1.1553, 0.6851], [0.3628, 0.7968]]"
    "vec_close4 [36 / 47, 11 / 47] [0.7660, 0.2340]"
    "mat_close4 [[543 / 865, 322 / 865], [341 / 1090, 749 / 1090]] [[0.6277, 0.3723], [0.3128, 0.6872]]"
    "mat_close4 [[720 / 2147, 560 / 2147, 867 / 2147], [220 / 1613, 380 / 1613, 1013 / 1613]]
        [[0.3354, 0.2608, 0.4038], [0.1364, 0.2356, 0.6280]]"
    by (simp_all add: mat_close4_def vec_close4_def close4_def)
  with example_forward example_backward example_gammas example_zetas example_one_pass
  show ?thesis by blast
qed

text \<open>
  Claim C7. For a non-empty state sequence the \<open>pi\<close> component should hold, for each
  state \<open>i\<close>, the number of occurrences of \<open>i\<close> divided by the length of the sequence,
  one entry per state. \<^verbatim>\<open>hidden_state_init\<close> keys its dictionary by the counts instead of
  the states: on \<open>[0, 1]\<close> both states occur once and a single entry is returned, and on
  \<open>[0, 0, 1]\<close> the entries come out ordered by count, so state 0 gets 1/3.
\<close>

theorem hidden_state_init_keyed_by_count:
  "hidden_state_init [0, 1] = Inr [1 / 2] \<and> hidden_state_init [0, 0, 1] = Inr [1 / 3, 2 / 3]"
  by (simp add: init_eval)

text \<open>
  Claim C8, as stated: an empty sequence or sequences of different lengths are rejected.
  The initializers accept them.
\<close>

theorem initializer_accepts_empty_and_unequal:
  "hidden_state_init [] = Inr [] \<and> trans_mat_init [] = Inr []
   \<and> emiss_state_init [] [] = Inr [] \<and> emiss_state_init [0] [0, 1] = Inr [[1, 0]]"
  by (simp add: init_eval)

text \<open>
  Claim C8, amended. The initializers do not validate their input;
  \<^verbatim>\<open>hidden_state_init\<close> returns a vector for every sequence. On an empty state
  sequence \<^verbatim>\<open>hidden_state_init\<close> returns the empty vector and \<^verbatim>\<open>trans_mat_init\<close> and
  \<^verbatim>\<open>emiss_state_init\<close> return a matrix without rows; on an empty observation sequence
  \<^verbatim>\<open>emiss_state_init\<close> returns one empty row per distinct state. Sequences of different
  lengths are paired up to the shorter one: whenever every paired state and symbol is
  below the number of distinct states and symbols, a matrix of that size is returned.
\<close>

theorem initializer_no_validation:
  "(\<exists>v. hidden_state_init sequence = Inr v)
   \<and> hidden_state_init [] = Inr [] \<and> trans_mat_init [] = Inr []
   \<and> emiss_state_init [] obs_seq = Inr []
   \<and> emiss_state_init hid_seq [] = Inr (replicate (card (set hid_seq)) [])
   \<and> ((\<forall>(h, ob) \<in> set (zip hid obs). h < card (set hid) \<and> ob < card (set obs))
        \<longrightarrow> (\<exists>m. emiss_state_init hid obs = Inr m
                  \<and> is_mat (card (set hid)) (card (set obs)) m))"
proof -
  have "hidden_state_init [] = Inr []" "trans_mat_init [] = Inr []"
    "emiss_state_init [] obs_seq = Inr []"
    "emiss_state_init hid_seq [] = Inr (replicate (card (set hid_seq)) [])"
    by (simp_all add: init_eval)
  then show ?thesis
    using emiss_state_init_ok[of hid obs] hidden_state_init_total[of sequence] by blast
qed

theorem initializer_no_validation_witness:
  "\<exists>m. emiss_state_init [0] [0, 1] = Inr m \<and> is_mat 1 2 m"
  using initializer_no_validation[of "[0]" "[]" "[]" "[0]" "[0, 1]"] by (simp add: numeral_2_eq_2)

text \<open>
  Claim C9, as stated: for one observation the zeta computation returns an all-zero
  accumulator. On the example's parameters with the single observation 0 it raises,
  both on its own and inside the pass.
\<close>

theorem zetas_single_observation_counterexample:
  "calculate_zetas (drop_last_col [[6 / 25], [2 / 25]]) [0]
     (example\<lparr>g_obs_sequence := [0], g_alpha := [[6 / 25], [2 / 25]], g_beta := [[1], [1]]\<rparr>)
     = Inl RuntimeError
   \<and> one_pass False [0]
       (example\<lparr>g_obs_sequence := [0], g_alpha := zeros 2 1, g_beta := zeros 2 1\<rparr>)
     = Inl RuntimeError"
  by code_simp

text \<open>
  Claim C9, amended. For an observation sequence of length 1 the zeta computation
  returns no accumulator. Applied as \<^verbatim>\<open>re_estimate_parameters\<close> applies it, to the forward
  table without its last column, the loop body never runs and \<^verbatim>\<open>torch.stack\<close> of the
  empty list raises; applied to the whole one-column table, \<^verbatim>\<open>obs_seq[t + 1]\<close> is out of
  range in the first iteration.
\<close>

theorem zetas_fail_for_single_observation:
  assumes "0 < N" and "is_mat N 1 alpha" and "is_mat N N (g_A g)" and "length obs_seq = 1"
  shows "calculate_zetas (drop_last_col alpha) obs_seq g = Inl RuntimeError
       \<and> calculate_zetas alpha obs_seq g = Inl IndexError"
proof -
  have "is_mat N 0 (drop_last_col alpha)"
    using drop_last_col_ok(1)[of N 0 alpha] assms(2) by simp
  then have "ncols (drop_last_col alpha) = 0"
    using assms(1) by (simp add: ncols_is_mat)
  then show ?thesis
    using calculate_zetas_no_columns calculate_zetas_single_column[OF assms(1,3,2,4)] by simp
qed

theorem zetas_fail_for_single_observation_witness:
  "calculate_zetas (drop_last_col [[6 / 25], [2 / 25]]) [0] (example\<lparr>g_obs_sequence := [0]\<rparr>)
     = Inl RuntimeError
   \<and> calculate_zetas [[6 / 25], [2 / 25]] [0] (example\<lparr>g_obs_sequence := [0]\<rparr>)
     = Inl IndexError"
proof -
  have h: "(0::nat) < 2" "is_mat 2 1 [[6 / 25], [2 / 25]]"
    "is_mat 2 2 (g_A (example\<lparr>g_obs_sequence := [0]\<rparr>))" "length [0::nat] = 1"
    by (simp_all add: is_mat_def example_def)
  show ?thesis by (rule zetas_fail_for_single_observation[OF h])
qed

text \<open>
  Claim C10. \<^verbatim>\<open>trans_mat_init\<close> and \<^verbatim>\<open>emiss_state_init\<close> size their matrices by the number
  of distinct values in the input and write at the raw values. A result always has
  that size; when the distinct values are exactly \<open>0, \<dots>, K - 1\<close> all writes are in
  bounds and the matrix is returned; on the states \<open>[0, 2]\<close>, and on the symbols
  \<open>[0, 2]\<close>, a write falls outside the matrix and the call fails with an index error.
\<close>

theorem init_matrices_sized_by_distinct_values:
  "(trans_mat_init sequence = Inr m
      \<longrightarrow> is_mat (card (set sequence)) (card (set sequence)) m)
   \<and> (emiss_state_init hid_seq obs_seq = Inr m'
      \<longrightarrow> is_mat (card (set hid_seq)) (card (set obs_seq)) m')
   \<and> (set sequence = {0..<K} \<longrightarrow> (\<exists>m. trans_mat_init sequence = Inr m \<and> is_mat K K m))
   \<and> (set hid_seq = {0..<K'} \<and> set obs_seq = {0..<L}
      \<longrightarrow> (\<exists>m. emiss_state_init hid_seq obs_seq = Inr m \<and> is_mat K' L m))
   \<and> trans_mat_init [0, 2] = Inl IndexError
   \<and> emiss_state_init [0, 0] [0, 2] = Inl IndexError"
proof -
  have "\<exists>m. emiss_state_init hid_seq obs_seq = Inr m \<and> is_mat K' L m"
    if h: "set hid_seq = {0..<K'}" and ob: "set obs_seq = {0..<L}"
  proof -
    have "\<forall>(h, ob) \<in> set (zip hid_seq obs_seq). h < card (set hid_seq) \<and> ob < card (set obs_seq)"
    proof (clarify, rule conjI)
      fix a b assume "(a, b) \<in> set (zip hid_seq obs_seq)"
      then have "a \<in> set hid_seq" "b \<in> set obs_seq"
        by (auto dest: set_zip_leftD set_zip_rightD)
      then show "a < card (set hid_seq)" "b < card (set obs_seq)"
        using h ob by simp_all
    qed
    from emiss_state_init_ok[OF this] show ?thesis using h ob by simp
  qed
  moreover have "trans_mat_init [0, 2] = Inl IndexError"
    "emiss_state_init [0, 0] [0, 2] = Inl IndexError"
    by (simp_all add: init_eval)
  ultimately show ?thesis
    using trans_mat_init_shape[of sequence m] emiss_state_init_shape[of hid_seq obs_seq m']
      trans_mat_init_ok[of sequence K]
    by blast
qed

theorem init_matrices_sized_by_distinct_values_witness:
  "trans_mat_init [0, 1, 1, 0, 1] = Inr [[0, 1], [1 / 3, 1 / 3]]
   \<and> is_mat 2 2 [[0, 1], [1 / 3, 1 / 3]]
   \<and> emiss_state_init [0, 1, 1] [0, 0, 1] = Inr [[1, 0], [1 / 2, 1 / 2]]
   \<and> is_mat 2 2 [[1, 0], [1 / 2, 1 / 2]]
   \<and> (\<exists>m. trans_mat_init [0, 1, 1, 0, 1] = Inr m \<and> is_mat 2 2 m)
   \<and> (\<exists>m. emiss_state_init [0, 1, 1] [0, 0, 1] = Inr m \<and> is_mat 2 2 m)"
proof -
  have t: "trans_mat_init [0, 1, 1, 0, 1] = Inr [[0, 1], [1 / 3, 1 / 3]]"
    and e: "emiss_state_init [0, 1, 1] [0, 0, 1] = Inr [[1, 0], [1 / 2, 1 / 2]]"
    by code_simp+
  have s: "set [0, 1, 1, 0, 1] = {0..<2::nat}" "set [0, 1, 1] = {0..<2::nat}"
    "set [0, 0, 1] = {0..<2::nat}"
    by (auto simp: atLeastLessThan_def)
  show ?thesis
    using init_matrices_sized_by_distinct_values[of "[0, 1, 1, 0, 1]" "[[0, 1], [1 / 3, 1 / 3]]"
        "[0, 1, 1]" "[0, 0, 1]" "[[1, 0], [1 / 2, 1 / 2]]" 2 2 2] t e s
    by simp
qed

end
